theory Spec2Isabelle
  imports Main
begin

section \<open>ProcessingScheduler: admission under a workload cap and an item-count cap\<close>

text \<open>
  The scheduler of \<^verbatim>\<open>KnowledgeService\<close>: two counters and an insertion-ordered
  map from task groups to their resolvers. A task group (\<^verbatim>\<open>LoaderTaskOfSet\<close>) is an
  insertion-ordered set of items; an item is removed from its set by object identity, which
  the model renders as its position in the list. A group carries an id in place of its
  resolver, and \<open>resolved\<close> lists the ids of the groups whose resolver was called. The
  unit of work of an item is kept apart (second part of this theory); the scheduler only
  sees that an admitted item's promise resolves at some later moment.
\<close>

datatype LoaderTaskItemState = PENDING | PROCESSING | DONE

record LoaderTaskItem =
  state :: LoaderTaskItemState
  evaluateTaskWorkload :: nat

record LoaderTaskOfSet =
  task_id :: nat
  loaderTasks :: "LoaderTaskItem list"

record KnowledgeService =
  workload :: int
  processingItemCount :: int
  knowledgeItemProcessingQueueMappingPromise :: "LoaderTaskOfSet list"
  resolved :: "nat list"

text \<open>Modelled from the spec: the constant \<^verbatim>\<open>MB\<close> of the shared configuration
  (\<^verbatim>\<open>@shared/config/constant\<close>), which is not among the source files. The spec gives
  the workload cap as 80 MB, and the technical note of the repository spells it out as
  \<^verbatim>\<open>1024 * 1024 * 80\<close>.\<close>

definition MB :: int where
  "MB = 1024 * 1024"

definition MAXIMUM_WORKLOAD :: int where
  "MAXIMUM_WORKLOAD = 80 * MB"

definition MAXIMUM_PROCESSING_ITEM_COUNT :: int where
  "MAXIMUM_PROCESSING_ITEM_COUNT = 30"

text \<open>\<^verbatim>\<open>maximumLoad()\<close> reads the two counters of the service.\<close>

definition maximumLoad :: "int \<Rightarrow> int \<Rightarrow> bool" where
  "maximumLoad w c \<longleftrightarrow> c \<ge> MAXIMUM_PROCESSING_ITEM_COUNT \<or> w \<ge> MAXIMUM_WORKLOAD"

text \<open>
  The inner loop of \<^verbatim>\<open>getSubtasksUntilMaximumLoad\<close> over the items of one group.
  It threads the two counters, returns the items with the admitted ones switched to
  \<^const>\<open>PROCESSING\<close>, the workloads pushed on \<^verbatim>\<open>queueTaskList\<close> (in order), and
  whether the labelled \<^verbatim>\<open>break that\<close> was taken.
\<close>

fun scan_items :: "int \<Rightarrow> int \<Rightarrow> LoaderTaskItem list
    \<Rightarrow> int \<times> int \<times> LoaderTaskItem list \<times> nat list \<times> bool" where
  "scan_items w c [] = (w, c, [], [], False)"
| "scan_items w c (item # items) =
     (if maximumLoad w c then (w, c, item # items, [], True)
      else if state item \<noteq> PENDING then
        (case scan_items w c items of
           (w', c', items', adm, brk) \<Rightarrow> (w', c', item # items', adm, brk))
      else
        (case scan_items (w + int (evaluateTaskWorkload item)) (c + 1) items of
           (w', c', items', adm, brk) \<Rightarrow>
             (w', c', item\<lparr>state := PROCESSING\<rparr> # items',
              evaluateTaskWorkload item # adm, brk)))"

text \<open>The outer loop over the groups, in the insertion order of the map.\<close>

fun scan_tasks :: "int \<Rightarrow> int \<Rightarrow> LoaderTaskOfSet list
    \<Rightarrow> int \<times> int \<times> LoaderTaskOfSet list \<times> nat list" where
  "scan_tasks w c [] = (w, c, [], [])"
| "scan_tasks w c (task # tasks) =
     (case scan_items w c (loaderTasks task) of
        (w', c', items', adm, brk) \<Rightarrow>
          if brk then (w', c', task\<lparr>loaderTasks := items'\<rparr> # tasks, adm)
          else (case scan_tasks w' c' tasks of
                  (w'', c'', tasks', adm') \<Rightarrow>
                    (w'', c'', task\<lparr>loaderTasks := items'\<rparr> # tasks', adm @ adm')))"

definition getSubtasksUntilMaximumLoad :: "KnowledgeService \<Rightarrow> KnowledgeService \<times> nat list" where
  "getSubtasksUntilMaximumLoad s =
     (case scan_tasks (workload s) (processingItemCount s)
             (knowledgeItemProcessingQueueMappingPromise s) of
        (w, c, tasks, adm) \<Rightarrow>
          (s\<lparr>workload := w, processingItemCount := c,
             knowledgeItemProcessingQueueMappingPromise := tasks\<rparr>, adm))"

text \<open>\<^verbatim>\<open>processingQueueHandle()\<close>: the scan, then every admitted unit of work is
  started. Their completions are later events (\<open>complete\<close> below).\<close>

definition processingQueueHandle :: "KnowledgeService \<Rightarrow> KnowledgeService" where
  "processingQueueHandle s = fst (getSubtasksUntilMaximumLoad s)"

text \<open>\<^verbatim>\<open>appendProcessingQueue(task)\<close> registers the group at the end of the map; every
  task factory creates its items \<^const>\<open>PENDING\<close>, each with its workload estimate.\<close>

definition appendProcessingQueue :: "KnowledgeService \<Rightarrow> nat \<Rightarrow> nat list \<Rightarrow> KnowledgeService" where
  "appendProcessingQueue s tid ws =
     s\<lparr>knowledgeItemProcessingQueueMappingPromise :=
         knowledgeItemProcessingQueueMappingPromise s @
         [\<lparr>task_id = tid,
           loaderTasks = map (\<lambda>w. \<lparr>state = PENDING, evaluateTaskWorkload = w\<rparr>) ws\<rparr>]\<rparr>"

definition add :: "KnowledgeService \<Rightarrow> nat \<Rightarrow> nat list \<Rightarrow> KnowledgeService" where
  "add s tid ws = processingQueueHandle (appendProcessingQueue s tid ws)"

text \<open>
  The completion callback of the item at position \<open>i\<close> of group \<open>g\<close>: both counters are
  decremented, the item is deleted from its set, an emptied group is deleted from the map
  and resolved, and the scan is run again. The callback exists for an admitted item only;
  \<open>complete\<close> is used at the position of an item that is \<^const>\<open>PROCESSING\<close> (see
  \<open>reachable\<close>).
\<close>

definition delete_at :: "nat \<Rightarrow> 'a list \<Rightarrow> 'a list" where
  "delete_at i xs = take i xs @ drop (Suc i) xs"

definition complete :: "KnowledgeService \<Rightarrow> nat \<Rightarrow> nat \<Rightarrow> KnowledgeService" where
  "complete s g i =
     (let tasks = knowledgeItemProcessingQueueMappingPromise s;
          task = tasks ! g;
          item = loaderTasks task ! i;
          items' = delete_at i (loaderTasks task);
          s1 = s\<lparr>workload := workload s - int (evaluateTaskWorkload item),
                 processingItemCount := processingItemCount s - 1\<rparr>;
          s2 = (if items' = []
                then s1\<lparr>knowledgeItemProcessingQueueMappingPromise := delete_at g tasks,
                        resolved := resolved s1 @ [task_id task]\<rparr>
                else s1\<lparr>knowledgeItemProcessingQueueMappingPromise :=
                          tasks[g := task\<lparr>loaderTasks := items'\<rparr>]\<rparr>)
      in processingQueueHandle s2)"

definition initial :: KnowledgeService where
  "initial = \<lparr>workload = 0, processingItemCount = 0,
              knowledgeItemProcessingQueueMappingPromise = [], resolved = []\<rparr>"

text \<open>The reachable states: any interleaving of submissions and of completions of items that
  are being processed.\<close>

inductive reachable :: "KnowledgeService \<Rightarrow> bool" where
  r_init: "reachable initial"
| r_add: "reachable s \<Longrightarrow> reachable (add s tid ws)"
| r_complete: "reachable s \<Longrightarrow> g < length (knowledgeItemProcessingQueueMappingPromise s)
    \<Longrightarrow> i < length (loaderTasks (knowledgeItemProcessingQueueMappingPromise s ! g))
    \<Longrightarrow> state (loaderTasks (knowledgeItemProcessingQueueMappingPromise s ! g) ! i) = PROCESSING
    \<Longrightarrow> reachable (complete s g i)"

text \<open>Workloads of the items being processed, over the whole map.\<close>

definition processing_of :: "LoaderTaskItem list \<Rightarrow> nat list" where
  "processing_of items = map evaluateTaskWorkload (filter (\<lambda>it. state it = PROCESSING) items)"

definition processing_workloads :: "LoaderTaskOfSet list \<Rightarrow> nat list" where
  "processing_workloads tasks = concat (map (\<lambda>t. processing_of (loaderTasks t)) tasks)"

fun largest :: "nat list \<Rightarrow> nat" where
  "largest [] = 0"
| "largest (w # ws) = max w (largest ws)"

text \<open>Two predicates on the outcome of a scan: the admitted workloads, in the order of
  admission, were each admitted with both running counters below their caps; and an item
  is left \<^const>\<open>PENDING\<close>. The invariant \<open>cap_inv\<close> ties the counters to the items
  being processed.\<close>

fun admitted_below_caps :: "int \<Rightarrow> int \<Rightarrow> nat list \<Rightarrow> bool" where
  "admitted_below_caps w c [] = True"
| "admitted_below_caps w c (x # xs) =
     (w < MAXIMUM_WORKLOAD \<and> c < MAXIMUM_PROCESSING_ITEM_COUNT \<and>
      admitted_below_caps (w + int x) (c + 1) xs)"

definition pending_left :: "LoaderTaskOfSet list \<Rightarrow> bool" where
  "pending_left tasks = list_ex (\<lambda>t. list_ex (\<lambda>it. state it = PENDING) (loaderTasks t)) tasks"

text \<open>The outcome of a scan is compared with its input through the items of the whole
  map in the order of the scan, \<open>items_of\<close>; \<open>admit\<close> is what the scan does to an item
  it passes while admitting (a \<^const>\<open>PENDING\<close> item becomes \<^const>\<open>PROCESSING\<close>, any other
  item is left as it is), and \<open>pending_workloads\<close> lists the estimates of the
  \<^const>\<open>PENDING\<close> items of a list.\<close>

definition items_of :: "LoaderTaskOfSet list \<Rightarrow> LoaderTaskItem list" where
  "items_of tasks = concat (map loaderTasks tasks)"

definition admit :: "LoaderTaskItem \<Rightarrow> LoaderTaskItem" where
  "admit it = (if state it = PENDING then it\<lparr>state := PROCESSING\<rparr> else it)"

definition pending_workloads :: "LoaderTaskItem list \<Rightarrow> nat list" where
  "pending_workloads items =
     map evaluateTaskWorkload (filter (\<lambda>it. state it = PENDING) items)"

definition cap_inv :: "KnowledgeService \<Rightarrow> bool" where
  "cap_inv s \<longleftrightarrow>
     processingItemCount s \<le> MAXIMUM_PROCESSING_ITEM_COUNT \<and>
     workload s = int (sum_list (processing_workloads (knowledgeItemProcessingQueueMappingPromise s))) \<and>
     workload s < MAXIMUM_WORKLOAD +
        int (largest (processing_workloads (knowledgeItemProcessingQueueMappingPromise s)))"

section \<open>Metadata stores\<close>

subsection \<open>SQL \<^verbatim>\<open>LIKE\<close>\<close>

text \<open>
  Both directory queries are \<^verbatim>\<open>... WHERE path LIKE ?\<close> with the parameter
  \<^verbatim>\<open>prefix + '%'\<close> and no \<^verbatim>\<open>ESCAPE\<close> clause. The operator is the one of
  SQLite (the store is a LibSQL database): in the pattern \<^verbatim>\<open>%\<close> matches any sequence
  of characters, \<^verbatim>\<open>_\<close> matches any single character, and any other character
  matches itself, upper and lower case ASCII letters being equal. Paths are strings of
  single-byte characters here.
\<close>

definition ascii_lower :: "char \<Rightarrow> char" where
  "ascii_lower c =
     (let n = (of_char c :: nat) in if 65 \<le> n \<and> n \<le> 90 then char_of (n + 32) else c)"

fun sql_like :: "string \<Rightarrow> string \<Rightarrow> bool" where
  "sql_like [] s = (s = [])"
| "sql_like (p # ps) s =
     (if p = CHR ''%'' then
        (sql_like ps s \<or> (case s of [] \<Rightarrow> False | _ # t \<Rightarrow> sql_like (p # ps) t))
      else
        (case s of
           [] \<Rightarrow> False
         | c # t \<Rightarrow> (p = CHR ''_'' \<or> ascii_lower p = ascii_lower c) \<and> sql_like ps t))"

definition endsWith :: "string \<Rightarrow> string \<Rightarrow> bool" where
  "endsWith s suffix \<longleftrightarrow> length suffix \<le> length s \<and> drop (length s - length suffix) s = suffix"

subsection \<open>The \<^verbatim>\<open>file_metadata\<close> table (incrementalUpdate variant)\<close>

text \<open>
  \<^verbatim>\<open>filePath TEXT PRIMARY KEY\<close>, \<^verbatim>\<open>embedjs_unique_id TEXT NOT NULL UNIQUE\<close>. A table
  is the list of its rows; a statement that would break a constraint fails and leaves the
  table as it was.
\<close>

datatype error = HashError | StatError | LoaderError | ConstraintError

record FileMetadata =
  filePath :: string
  lastModified :: int
  size_bytes :: nat
  hash :: string
  embedjs_unique_id :: string

text \<open>\<^verbatim>\<open>Partial<FileMetadata>\<close>: the keys that are present.\<close>

record FileMetadataPartial =
  set_filePath :: "string option"
  set_lastModified :: "int option"
  set_size_bytes :: "nat option"
  set_hash :: "string option"
  set_embedjs_unique_id :: "string option"

definition getFileMetadata :: "FileMetadata list \<Rightarrow> string \<Rightarrow> FileMetadata option" where
  "getFileMetadata db p = find (\<lambda>r. filePath r = p) db"

definition insertFileMetadata :: "FileMetadata list \<Rightarrow> FileMetadata \<Rightarrow> error + FileMetadata list" where
  "insertFileMetadata db metadata =
     (if list_ex (\<lambda>r. filePath r = filePath metadata \<or>
                       embedjs_unique_id r = embedjs_unique_id metadata) db
      then Inl ConstraintError
      else Inr (db @ [metadata]))"

definition apply_partial :: "FileMetadataPartial \<Rightarrow> FileMetadata \<Rightarrow> FileMetadata" where
  "apply_partial p r =
     \<lparr>filePath = (case set_filePath p of None \<Rightarrow> filePath r | Some v \<Rightarrow> v),
      lastModified = (case set_lastModified p of None \<Rightarrow> lastModified r | Some v \<Rightarrow> v),
      size_bytes = (case set_size_bytes p of None \<Rightarrow> size_bytes r | Some v \<Rightarrow> v),
      hash = (case set_hash p of None \<Rightarrow> hash r | Some v \<Rightarrow> v),
      embedjs_unique_id =
        (case set_embedjs_unique_id p of None \<Rightarrow> embedjs_unique_id r | Some v \<Rightarrow> v)\<rparr>"

definition updateFileMetadata ::
    "FileMetadata list \<Rightarrow> string \<Rightarrow> FileMetadataPartial \<Rightarrow> error + FileMetadata list" where
  "updateFileMetadata db p metadata =
     (if set_filePath metadata = None \<and> set_lastModified metadata = None \<and>
         set_size_bytes metadata = None \<and> set_hash metadata = None \<and>
         set_embedjs_unique_id metadata = None
      then Inr db
      else if list_ex (\<lambda>r. filePath r = p) db \<and>
              list_ex (\<lambda>r. filePath r \<noteq> p \<and>
                 (set_filePath metadata = Some (filePath r) \<or>
                  set_embedjs_unique_id metadata = Some (embedjs_unique_id r))) db
      then Inl ConstraintError
      else Inr (map (\<lambda>r. if filePath r = p then apply_partial metadata r else r) db))"

definition deleteFileMetadata :: "FileMetadata list \<Rightarrow> string \<Rightarrow> FileMetadata list" where
  "deleteFileMetadata db p = filter (\<lambda>r. filePath r \<noteq> p) db"

definition pathPrefix :: "string \<Rightarrow> string" where
  "pathPrefix directoryPath =
     (if endsWith directoryPath ''/'' then directoryPath else directoryPath @ ''/'')"

definition getDirectoryMetadata :: "FileMetadata list \<Rightarrow> string \<Rightarrow> FileMetadata list" where
  "getDirectoryMetadata db directoryPath =
     filter (\<lambda>r. sql_like (pathPrefix directoryPath @ ''%'') (filePath r)) db"

definition deleteDirectoryMetadata :: "FileMetadata list \<Rightarrow> string \<Rightarrow> FileMetadata list" where
  "deleteDirectoryMetadata db directoryPath =
     filter (\<lambda>r. \<not> sql_like (pathPrefix directoryPath @ ''%'') (filePath r)) db"

subsection \<open>The \<^verbatim>\<open>document_metadata\<close> table (metadata-store variant)\<close>

text \<open>
  \<^verbatim>\<open>UNIQUE (knowledge_base_id, file_path)\<close>. The columns \<^verbatim>\<open>id\<close>,
  \<^verbatim>\<open>created_at\<close> and \<^verbatim>\<open>updated_at\<close> are filled in by the database and are read by
  none of the functions below; they are left out of the row. Every knowledge base has a
  database file of its own and every statement also selects on \<^verbatim>\<open>knowledge_base_id\<close>;
  the model keeps the rows of all knowledge bases in one list and selects on the column.
\<close>

record DocumentMetadata =
  knowledge_base_id :: string
  file_path :: string
  content_hash :: string
  unique_id_embedjs :: string
  loader_type :: string
  last_modified_timestamp :: int

definition addOrUpdateMetadata :: "DocumentMetadata list \<Rightarrow> DocumentMetadata \<Rightarrow> DocumentMetadata list" where
  "addOrUpdateMetadata db metadata =
     (if list_ex (\<lambda>r. knowledge_base_id r = knowledge_base_id metadata \<and>
                       file_path r = file_path metadata) db
      then map (\<lambda>r. if knowledge_base_id r = knowledge_base_id metadata \<and>
                        file_path r = file_path metadata
                     then r\<lparr>content_hash := content_hash metadata,
                            unique_id_embedjs := unique_id_embedjs metadata,
                            loader_type := loader_type metadata,
                            last_modified_timestamp := last_modified_timestamp metadata\<rparr>
                     else r) db
      else db @ [metadata])"

definition getMetadataByPath :: "DocumentMetadata list \<Rightarrow> string \<Rightarrow> string \<Rightarrow> DocumentMetadata option" where
  "getMetadataByPath db kb p =
     (case filter (\<lambda>r. knowledge_base_id r = kb \<and> file_path r = p) db of
        [] \<Rightarrow> None | row # _ \<Rightarrow> Some row)"

definition getMetadataByEmbedjsUniqueId ::
    "DocumentMetadata list \<Rightarrow> string \<Rightarrow> string \<Rightarrow> DocumentMetadata option" where
  "getMetadataByEmbedjsUniqueId db kb uid =
     (case filter (\<lambda>r. knowledge_base_id r = kb \<and> unique_id_embedjs r = uid) db of
        [] \<Rightarrow> None | row # _ \<Rightarrow> Some row)"

definition deleteMetadata :: "DocumentMetadata list \<Rightarrow> string \<Rightarrow> string \<Rightarrow> DocumentMetadata list" where
  "deleteMetadata db kb p = filter (\<lambda>r. \<not> (knowledge_base_id r = kb \<and> file_path r = p)) db"

definition deleteMetadataByEmbedjsUniqueId ::
    "DocumentMetadata list \<Rightarrow> string \<Rightarrow> string \<Rightarrow> DocumentMetadata list" where
  "deleteMetadataByEmbedjsUniqueId db kb uid =
     filter (\<lambda>r. \<not> (knowledge_base_id r = kb \<and> unique_id_embedjs r = uid)) db"

text \<open>\<^verbatim>\<open>path.sep\<close> is a parameter: \<^verbatim>\<open>/\<close> on POSIX, a backslash on Windows.\<close>

definition getMetadataByDirectoryPath ::
    "string \<Rightarrow> DocumentMetadata list \<Rightarrow> string \<Rightarrow> string \<Rightarrow> DocumentMetadata list" where
  "getMetadataByDirectoryPath sep db kb directory_path =
     (let normalizedPath =
            (if endsWith directory_path sep then directory_path else directory_path @ sep)
      in filter (\<lambda>r. knowledge_base_id r = kb \<and> sql_like (normalizedPath @ ''%'') (file_path r)) db)"

section \<open>Task items: the units of work\<close>

text \<open>
  The repository holds two versions of \<^verbatim>\<open>KnowledgeService\<close>. The
  \<^emph>\<open>incrementalUpdate variant\<close> takes the option \<^verbatim>\<open>incrementalUpdate\<close> and keeps the
  table \<^verbatim>\<open>file_metadata\<close> for directories; the \<^emph>\<open>metadata-store variant\<close> keeps the
  table \<^verbatim>\<open>document_metadata\<close> for files and directories. Their file and directory
  tasks are modelled below, with the suffixes \<open>_inc\<close> and \<open>_ms\<close>; the tasks for a
  url, a sitemap and a note read and write no metadata and are left out.

  The collaborators of a unit of work are parameters. \<^verbatim>\<open>calculateFileHash\<close> and
  \<^verbatim>\<open>statSync(path).mtimeMs\<close> read the file system, \<^verbatim>\<open>addFileLoader\<close> and
  \<^verbatim>\<open>ragApplication.deleteLoader\<close> call the embedding backend; each of them may fail
  (\<open>None\<close>, \<open>False\<close>: the promise rejects, the call throws). The file list of a
  directory is the result of \<^verbatim>\<open>getAllFiles\<close>. A statement on a metadata table fails
  only by breaking a constraint of the table. Progress reports to the window
  (\<^verbatim>\<open>sendDirectoryProcessingPercent\<close>) and log lines are not part of the model.
\<close>

record FileType =
  path :: string
  file_size :: nat
  file_lastModified :: int

record LoaderReturn =
  entriesAdded :: nat
  uniqueId :: string
  uniqueIds :: "string list"
  loaderType :: string

record env =
  calculateFileHash :: "string \<Rightarrow> string option"
  statSync_mtimeMs :: "string \<Rightarrow> int option"
  addFileLoader :: "FileType \<Rightarrow> bool \<Rightarrow> LoaderReturn option"
  deleteLoader :: "string \<Rightarrow> bool"

definition ERROR_LOADER_RETURN :: LoaderReturn where
  "ERROR_LOADER_RETURN = \<lparr>entriesAdded = 0, uniqueId = '''', uniqueIds = [''''], loaderType = ''''\<rparr>"

text \<open>Every call to the backend and every write to a metadata table is recorded, in the order
  in which the calls are made, whether or not the call succeeds.\<close>

datatype event =
    DeleteLoader string
  | AddFileLoader string bool
  | InsertFileMetadata FileMetadata
  | UpdateFileMetadata string FileMetadataPartial
  | DeleteFileMetadata string
  | DeleteDirectoryMetadata string
  | AddOrUpdateMetadata DocumentMetadata
  | DeleteMetadata string string
  | DeleteMetadataByEmbedjsUniqueId string string

text \<open>What a unit of work acts on: the metadata table, the record of calls, and the
  \<^verbatim>\<open>loaderDoneReturn\<close> of its task group.\<close>

record ('r, 'a) world =
  store :: "'r list"
  trace :: "event list"
  loaderDoneReturn :: 'a

text \<open>An awaited step either yields a value or throws; \<open>andThen\<close> is the sequencing of
  \<^verbatim>\<open>await\<close> (and of \<^verbatim>\<open>.then\<close>), \<open>catch\<close> is \<^verbatim>\<open>try/catch\<close> (and \<^verbatim>\<open>.catch\<close>).
  A unit of work whose result is \<open>Inl\<close> is a rejected promise.\<close>

type_synonym ('w, 'v) step = "'w \<Rightarrow> 'w \<times> (error + 'v)"

definition resolve :: "'v \<Rightarrow> ('w, 'v) step" where
  "resolve v w = (w, Inr v)"

definition andThen :: "('w, 'u) step \<Rightarrow> ('u \<Rightarrow> ('w, 'v) step) \<Rightarrow> ('w, 'v) step" where
  "andThen m f w = (case m w of (w', Inl e) \<Rightarrow> (w', Inl e) | (w', Inr v) \<Rightarrow> f v w')"

definition catch :: "('w, 'v) step \<Rightarrow> (error \<Rightarrow> ('w, 'v) step) \<Rightarrow> ('w, 'v) step" where
  "catch m h w = (case m w of (w', Inl e) \<Rightarrow> h e w' | (w', Inr v) \<Rightarrow> (w', Inr v))"

definition await_calculateFileHash :: "env \<Rightarrow> string \<Rightarrow> ('w, string) step" where
  "await_calculateFileHash E p w =
     (w, case calculateFileHash E p of None \<Rightarrow> Inl HashError | Some h \<Rightarrow> Inr h)"

definition call_statSync_mtimeMs :: "env \<Rightarrow> string \<Rightarrow> ('w, int) step" where
  "call_statSync_mtimeMs E p w =
     (w, case statSync_mtimeMs E p of None \<Rightarrow> Inl StatError | Some t \<Rightarrow> Inr t)"

definition await_deleteLoader :: "env \<Rightarrow> string \<Rightarrow> (('r, 'a) world, unit) step" where
  "await_deleteLoader E uid w =
     (w\<lparr>trace := trace w @ [DeleteLoader uid]\<rparr>,
      if deleteLoader E uid then Inr () else Inl LoaderError)"

definition await_addFileLoader :: "env \<Rightarrow> FileType \<Rightarrow> bool \<Rightarrow> (('r, 'a) world, LoaderReturn) step" where
  "await_addFileLoader E file forceReload w =
     (w\<lparr>trace := trace w @ [AddFileLoader (path file) forceReload]\<rparr>,
      case addFileLoader E file forceReload of None \<Rightarrow> Inl LoaderError | Some r \<Rightarrow> Inr r)"

definition await_insertFileMetadata :: "FileMetadata \<Rightarrow> ((FileMetadata, 'a) world, unit) step" where
  "await_insertFileMetadata metadata w =
     (case insertFileMetadata (store w) metadata of
        Inl e \<Rightarrow> (w\<lparr>trace := trace w @ [InsertFileMetadata metadata]\<rparr>, Inl e)
      | Inr db \<Rightarrow> (w\<lparr>store := db, trace := trace w @ [InsertFileMetadata metadata]\<rparr>, Inr ()))"

definition await_updateFileMetadata ::
    "string \<Rightarrow> FileMetadataPartial \<Rightarrow> ((FileMetadata, 'a) world, unit) step" where
  "await_updateFileMetadata p metadata w =
     (case updateFileMetadata (store w) p metadata of
        Inl e \<Rightarrow> (w\<lparr>trace := trace w @ [UpdateFileMetadata p metadata]\<rparr>, Inl e)
      | Inr db \<Rightarrow> (w\<lparr>store := db, trace := trace w @ [UpdateFileMetadata p metadata]\<rparr>, Inr ()))"

definition await_deleteFileMetadata :: "string \<Rightarrow> ((FileMetadata, 'a) world, unit) step" where
  "await_deleteFileMetadata p w =
     (w\<lparr>store := deleteFileMetadata (store w) p, trace := trace w @ [DeleteFileMetadata p]\<rparr>, Inr ())"

definition await_deleteDirectoryMetadata :: "string \<Rightarrow> ((FileMetadata, 'a) world, unit) step" where
  "await_deleteDirectoryMetadata directoryPath w =
     (w\<lparr>store := deleteDirectoryMetadata (store w) directoryPath,
        trace := trace w @ [DeleteDirectoryMetadata directoryPath]\<rparr>, Inr ())"

definition await_addOrUpdateMetadata :: "DocumentMetadata \<Rightarrow> ((DocumentMetadata, 'a) world, unit) step" where
  "await_addOrUpdateMetadata metadata w =
     (w\<lparr>store := addOrUpdateMetadata (store w) metadata,
        trace := trace w @ [AddOrUpdateMetadata metadata]\<rparr>, Inr ())"

definition await_deleteMetadata :: "string \<Rightarrow> string \<Rightarrow> ((DocumentMetadata, 'a) world, unit) step" where
  "await_deleteMetadata kb p w =
     (w\<lparr>store := deleteMetadata (store w) kb p, trace := trace w @ [DeleteMetadata kb p]\<rparr>, Inr ())"

definition await_deleteMetadataByEmbedjsUniqueId ::
    "string \<Rightarrow> string \<Rightarrow> ((DocumentMetadata, 'a) world, unit) step" where
  "await_deleteMetadataByEmbedjsUniqueId kb uid w =
     (w\<lparr>store := deleteMetadataByEmbedjsUniqueId (store w) kb uid,
        trace := trace w @ [DeleteMetadataByEmbedjsUniqueId kb uid]\<rparr>, Inr ())"

text \<open>A task group as its factory returns it: the units of work with their workload
  estimates, all \<^const>\<open>PENDING\<close>.\<close>

type_synonym ('w, 'v) task_item = "('w, 'v) step \<times> nat"

subsection \<open>incrementalUpdate variant of \<^verbatim>\<open>KnowledgeService\<close>\<close>

text \<open>\<^verbatim>\<open>fileTask\<close>: one item, which hands the file to \<^verbatim>\<open>addFileLoader\<close>; the
  metadata table is neither read nor written, and \<^verbatim>\<open>incrementalUpdate\<close> is not
  looked at.\<close>

definition file_task_inc ::
    "env \<Rightarrow> FileType \<Rightarrow> bool \<Rightarrow> (('r, LoaderReturn option) world, LoaderReturn) step" where
  "file_task_inc E file forceReload =
     catch
       (andThen (await_addFileLoader E file forceReload)
          (\<lambda>result w. (w\<lparr>loaderDoneReturn := Some result\<rparr>, Inr result)))
       (\<lambda>err. resolve ERROR_LOADER_RETURN)"

definition fileTask_inc ::
    "env \<Rightarrow> FileType \<Rightarrow> bool \<Rightarrow> (('r, LoaderReturn option) world, LoaderReturn) task_item list" where
  "fileTask_inc E file forceReload = [(file_task_inc E file forceReload, file_size file)]"

text \<open>The body of the loop over the current files in the master task of an incremental
  directory update; \<open>acc\<close> is \<^verbatim>\<open>(currentEntriesAdded, currentUniqueIds)\<close>.\<close>

definition incremental_file ::
    "env \<Rightarrow> (string \<rightharpoonup> FileMetadata) \<Rightarrow> FileType \<Rightarrow> nat \<times> string list
      \<Rightarrow> ((FileMetadata, 'a) world, nat \<times> string list) step" where
  "incremental_file E existingMetadataMap file acc =
     andThen (await_calculateFileHash E (path file)) (\<lambda>currentHash.
     andThen (call_statSync_mtimeMs E (path file)) (\<lambda>mtimeMs.
       (case existingMetadataMap (path file) of
          Some existingFileMeta \<Rightarrow>
            if hash existingFileMeta \<noteq> currentHash \<or> lastModified existingFileMeta \<noteq> mtimeMs
            then
              andThen (await_deleteLoader E (embedjs_unique_id existingFileMeta)) (\<lambda>_.
              andThen (await_addFileLoader E file True) (\<lambda>result.
              andThen (await_updateFileMetadata (path file)
                         \<lparr>set_filePath = None, set_lastModified = Some mtimeMs,
                          set_size_bytes = Some (file_size file), set_hash = Some currentHash,
                          set_embedjs_unique_id = Some (uniqueId result)\<rparr>) (\<lambda>_.
              resolve (fst acc + 1, snd acc @ [uniqueId result]))))
            else resolve (fst acc, snd acc @ [filePath existingFileMeta])
        | None \<Rightarrow>
            andThen (await_addFileLoader E file False) (\<lambda>result.
            andThen (await_insertFileMetadata
                       \<lparr>filePath = path file, lastModified = mtimeMs,
                        size_bytes = file_size file, hash = currentHash,
                        embedjs_unique_id = uniqueId result\<rparr>) (\<lambda>_.
            resolve (fst acc + 1, snd acc @ [uniqueId result]))))))"

fun incremental_files ::
    "env \<Rightarrow> (string \<rightharpoonup> FileMetadata) \<Rightarrow> FileType list \<Rightarrow> nat \<times> string list
      \<Rightarrow> ((FileMetadata, 'a) world, nat \<times> string list) step" where
  "incremental_files E existingMetadataMap [] acc = resolve acc"
| "incremental_files E existingMetadataMap (file # files) acc =
     andThen (incremental_file E existingMetadataMap file acc)
       (\<lambda>acc'. incremental_files E existingMetadataMap files acc')"

text \<open>The loop over the records loaded at the start; \<open>processedFilePaths\<close> holds the paths
  of all current files once the first loop is through.\<close>

fun incremental_deleted ::
    "env \<Rightarrow> string list \<Rightarrow> FileMetadata list \<Rightarrow> ((FileMetadata, 'a) world, unit) step" where
  "incremental_deleted E processedFilePaths [] = resolve ()"
| "incremental_deleted E processedFilePaths (oldMeta # rest) =
     (if filePath oldMeta \<notin> set processedFilePaths then
        andThen (await_deleteLoader E (embedjs_unique_id oldMeta)) (\<lambda>_.
        andThen (await_deleteFileMetadata (filePath oldMeta)) (\<lambda>_.
        incremental_deleted E processedFilePaths rest))
      else incremental_deleted E processedFilePaths rest)"

text \<open>\<^verbatim>\<open>new Map(list.map(m => [m.filePath, m]))\<close>: a later entry replaces an earlier one.\<close>

definition metadata_map :: "FileMetadata list \<Rightarrow> (string \<rightharpoonup> FileMetadata)" where
  "metadata_map existingMetadataList = map_of (rev (map (\<lambda>m. (filePath m, m)) existingMetadataList))"

definition incremental_master ::
    "env \<Rightarrow> string \<Rightarrow> FileType list \<Rightarrow> ((FileMetadata, LoaderReturn) world, LoaderReturn) step" where
  "incremental_master E directoryPath files w =
     (let existingMetadataList = getDirectoryMetadata (store w) directoryPath;
          existingMetadataMap = metadata_map existingMetadataList
      in andThen (incremental_files E existingMetadataMap files (0, [])) (\<lambda>acc.
         andThen (incremental_deleted E (map path files) existingMetadataList) (\<lambda>_ w'.
           (w'\<lparr>loaderDoneReturn :=
                 (loaderDoneReturn w')\<lparr>entriesAdded := fst acc, uniqueIds := snd acc\<rparr>\<rparr>,
            Inr \<lparr>entriesAdded = fst acc, uniqueId = uniqueId (loaderDoneReturn w'),
                 uniqueIds = snd acc, loaderType = ''DirectoryIncrementalScanPart''\<rparr>))) w)"

text \<open>The items of a full refresh: the metadata-clearing item and one item per file.\<close>

definition clear_metadata_task :: "string \<Rightarrow> ((FileMetadata, 'a) world, LoaderReturn) step" where
  "clear_metadata_task directoryPath =
     andThen (await_deleteDirectoryMetadata directoryPath) (\<lambda>_.
     resolve \<lparr>entriesAdded = 0, uniqueId = ''deleteMetaTask'', uniqueIds = [],
              loaderType = ''PreTask''\<rparr>)"

definition refresh_file_task ::
    "env \<Rightarrow> FileType \<Rightarrow> ((FileMetadata, LoaderReturn) world, LoaderReturn) step" where
  "refresh_file_task E file =
     catch
       (andThen (await_addFileLoader E file True) (\<lambda>result.
        andThen (await_calculateFileHash E (path file)) (\<lambda>h.
        andThen (call_statSync_mtimeMs E (path file)) (\<lambda>mtimeMs.
        andThen (await_insertFileMetadata
                   \<lparr>filePath = path file, lastModified = mtimeMs, size_bytes = file_size file,
                    hash = h, embedjs_unique_id = uniqueId result\<rparr>) (\<lambda>_ w.
          (w\<lparr>loaderDoneReturn :=
                (loaderDoneReturn w)\<lparr>entriesAdded := entriesAdded (loaderDoneReturn w) + 1,
                                      uniqueIds := uniqueIds (loaderDoneReturn w) @ [uniqueId result]\<rparr>\<rparr>,
           Inr result))))))
       (\<lambda>err. resolve ERROR_LOADER_RETURN)"

definition directoryTask_inc ::
    "env \<Rightarrow> string \<Rightarrow> FileType list \<Rightarrow> bool \<Rightarrow> bool
      \<Rightarrow> ((FileMetadata, LoaderReturn) world, LoaderReturn) task_item list" where
  "directoryTask_inc E directoryPath files forceReload incrementalUpdate =
     (if incrementalUpdate \<and> \<not> forceReload then
        [(incremental_master E directoryPath files, sum_list (map file_size files))]
      else
        (if \<not> incrementalUpdate \<or> forceReload
         then [(clear_metadata_task directoryPath, nat MB)] else []) @
        map (\<lambda>file. (refresh_file_task E file, file_size file)) files)"

text \<open>The aggregate a directory task starts from; the suffix of its id is a fresh UUID.\<close>

definition directory_loaderDoneReturn :: "string \<Rightarrow> LoaderReturn" where
  "directory_loaderDoneReturn uuid =
     \<lparr>entriesAdded = 0, uniqueId = ''DirectoryLoader_'' @ uuid, uniqueIds = [],
      loaderType = ''DirectoryLoader''\<rparr>"

text \<open>One schedule of a task group: its items run one after the other, in their order. A
  rejected item does not stop the others.\<close>

fun run_items :: "('w, 'v) task_item list \<Rightarrow> 'w \<Rightarrow> 'w \<times> (error + 'v) list" where
  "run_items [] w = (w, [])"
| "run_items (item # items) w =
     (case fst item w of (w', r) \<Rightarrow>
        (case run_items items w' of (w'', rs) \<Rightarrow> (w'', r # rs)))"

subsection \<open>metadata-store variant of \<^verbatim>\<open>KnowledgeService\<close>\<close>

text \<open>\<^verbatim>\<open>result && result.uniqueId && result.loaderType !== '' && result.uniqueId !== ''\<close>\<close>

definition valid_result :: "LoaderReturn \<Rightarrow> bool" where
  "valid_result result \<longleftrightarrow> uniqueId result \<noteq> '''' \<and> loaderType result \<noteq> ''''"

text \<open>The second conditional of the file tasks: the old artifact and the old record are
  deleted when there is a record and the file is reloaded by force or its hash differs.\<close>

definition delete_existing ::
    "env \<Rightarrow> string \<Rightarrow> DocumentMetadata option \<Rightarrow> bool \<Rightarrow> string
      \<Rightarrow> ((DocumentMetadata, 'a) world, unit) step" where
  "delete_existing E base_id existingMetadata forceReload fileHash =
     (case existingMetadata of
        Some m \<Rightarrow>
          if forceReload \<or> content_hash m \<noteq> fileHash then
            andThen (await_deleteLoader E (unique_id_embedjs m)) (\<lambda>_.
            await_deleteMetadataByEmbedjsUniqueId base_id (unique_id_embedjs m))
          else resolve ()
      | None \<Rightarrow> resolve ())"

definition new_metadata :: "string \<Rightarrow> FileType \<Rightarrow> string \<Rightarrow> LoaderReturn \<Rightarrow> DocumentMetadata" where
  "new_metadata base_id file fileHash result =
     \<lparr>knowledge_base_id = base_id, file_path = path file, content_hash = fileHash,
      unique_id_embedjs = uniqueId result, loader_type = loaderType result,
      last_modified_timestamp = file_lastModified file\<rparr>"

definition skipped_unchanged :: "DocumentMetadata \<Rightarrow> LoaderReturn" where
  "skipped_unchanged m =
     \<lparr>entriesAdded = 0, uniqueId = unique_id_embedjs m, uniqueIds = [unique_id_embedjs m],
      loaderType = ''SkippedUnchanged''\<rparr>"

definition file_task_ms ::
    "env \<Rightarrow> string \<Rightarrow> FileType \<Rightarrow> bool
      \<Rightarrow> ((DocumentMetadata, LoaderReturn option) world, LoaderReturn) step" where
  "file_task_ms E base_id file forceReload =
     catch
       (andThen (await_calculateFileHash E (path file)) (\<lambda>fileHash w.
          (let existingMetadata = getMetadataByPath (store w) base_id (path file);
               update_and_add =
                 andThen (delete_existing E base_id existingMetadata forceReload fileHash) (\<lambda>_.
                 andThen (await_addFileLoader E file forceReload) (\<lambda>result.
                   if valid_result result then
                     andThen (await_addOrUpdateMetadata
                                (new_metadata base_id file fileHash result)) (\<lambda>_ w'.
                       (w'\<lparr>loaderDoneReturn := Some result\<rparr>, Inr result))
                   else
                     (\<lambda>w'. (w'\<lparr>loaderDoneReturn := Some ERROR_LOADER_RETURN\<rparr>, Inr result))))
           in case existingMetadata of
                Some m \<Rightarrow>
                  if \<not> forceReload \<and> content_hash m = fileHash
                  then (w\<lparr>loaderDoneReturn := Some (skipped_unchanged m)\<rparr>,
                        Inr (skipped_unchanged m))
                  else update_and_add w
              | None \<Rightarrow> update_and_add w)))
       (\<lambda>err w. (w\<lparr>loaderDoneReturn := Some ERROR_LOADER_RETURN\<rparr>, Inr ERROR_LOADER_RETURN))"

definition fileTask_ms ::
    "env \<Rightarrow> string \<Rightarrow> FileType \<Rightarrow> bool
      \<Rightarrow> ((DocumentMetadata, LoaderReturn option) world, LoaderReturn) task_item list" where
  "fileTask_ms E base_id file forceReload =
     [(file_task_ms E base_id file forceReload, file_size file)]"

text \<open>\<^verbatim>\<open>directoryTask\<close>: one item per current file and the deletion check at the end.\<close>

definition directory_file_task_ms ::
    "env \<Rightarrow> string \<Rightarrow> FileType \<Rightarrow> bool
      \<Rightarrow> ((DocumentMetadata, LoaderReturn) world, LoaderReturn) step" where
  "directory_file_task_ms E base_id file forceReload =
     catch
       (andThen (await_calculateFileHash E (path file)) (\<lambda>fileHash w.
          (let existingMetadata = getMetadataByPath (store w) base_id (path file);
               update_and_add =
                 andThen (delete_existing E base_id existingMetadata forceReload fileHash) (\<lambda>_.
                 andThen (await_addFileLoader E file forceReload) (\<lambda>result.
                   if valid_result result then
                     andThen (await_addOrUpdateMetadata
                                (new_metadata base_id file fileHash result)) (\<lambda>_ w'.
                       (w'\<lparr>loaderDoneReturn :=
                             (loaderDoneReturn w')
                               \<lparr>entriesAdded := entriesAdded (loaderDoneReturn w') +
                                    (if entriesAdded result > 0 then 1 else 0),
                                uniqueIds := uniqueIds (loaderDoneReturn w') @ [uniqueId result]\<rparr>\<rparr>,
                        Inr result))
                   else resolve result))
           in case existingMetadata of
                Some m \<Rightarrow>
                  if \<not> forceReload \<and> content_hash m = fileHash
                  then (w\<lparr>loaderDoneReturn :=
                           (loaderDoneReturn w)
                             \<lparr>uniqueIds := uniqueIds (loaderDoneReturn w) @ [unique_id_embedjs m]\<rparr>\<rparr>,
                        Inr (skipped_unchanged m))
                  else update_and_add w
              | None \<Rightarrow> update_and_add w)))
       (\<lambda>err. resolve ERROR_LOADER_RETURN)"

fun deletion_check_loop ::
    "env \<Rightarrow> string \<Rightarrow> string list \<Rightarrow> DocumentMetadata list
      \<Rightarrow> ((DocumentMetadata, 'a) world, unit) step" where
  "deletion_check_loop E base_id currentFilePaths [] = resolve ()"
| "deletion_check_loop E base_id currentFilePaths (meta # rest) =
     (if file_path meta \<notin> set currentFilePaths then
        andThen (await_deleteLoader E (unique_id_embedjs meta)) (\<lambda>_.
        andThen (await_deleteMetadata base_id (file_path meta)) (\<lambda>_.
        deletion_check_loop E base_id currentFilePaths rest))
      else deletion_check_loop E base_id currentFilePaths rest)"

definition deletion_check_task ::
    "env \<Rightarrow> string \<Rightarrow> string \<Rightarrow> string \<Rightarrow> string list \<Rightarrow> string
      \<Rightarrow> ((DocumentMetadata, 'a) world, LoaderReturn) step" where
  "deletion_check_task E sep base_id directory currentFilePaths uuid =
     catch
       (\<lambda>w. andThen
              (deletion_check_loop E base_id currentFilePaths
                 (getMetadataByDirectoryPath sep (store w) base_id directory)) (\<lambda>_.
              resolve \<lparr>entriesAdded = 0, uniqueId = ''DeletionCheck_'' @ uuid, uniqueIds = [],
                       loaderType = ''DeletionCheck''\<rparr>) w)
       (\<lambda>err. resolve ERROR_LOADER_RETURN)"

definition directoryTask_ms ::
    "env \<Rightarrow> string \<Rightarrow> string \<Rightarrow> string \<Rightarrow> FileType list \<Rightarrow> bool \<Rightarrow> string
      \<Rightarrow> ((DocumentMetadata, LoaderReturn) world, LoaderReturn) task_item list" where
  "directoryTask_ms E sep base_id directory files forceReload uuid =
     map (\<lambda>file. (directory_file_task_ms E base_id file forceReload, file_size file)) files @
     [(deletion_check_task E sep base_id directory (map path files) uuid, nat MB)]"

section \<open>A sample directory\<close>

text \<open>
  The directory \<^verbatim>\<open>/d\<close> with the readable files \<^verbatim>\<open>a.txt\<close> (50 bytes) and
  \<^verbatim>\<open>b.txt\<close> (60 bytes) and the unreadable file \<^verbatim>\<open>c.txt\<close>, a backend that accepts
  every call, and the rows the two metadata tables hold after a first synchronisation.
\<close>

definition sample_env :: env where
  "sample_env =
     \<lparr>calculateFileHash =
        (\<lambda>p. if p = ''/d/a.txt'' then Some ''h1'' else if p = ''/d/b.txt'' then Some ''h2'' else None),
      statSync_mtimeMs =
        (\<lambda>p. if p = ''/d/a.txt'' then Some 10 else if p = ''/d/b.txt'' then Some 20 else None),
      addFileLoader =
        (\<lambda>f forceReload. Some \<lparr>entriesAdded = 1, uniqueId = ''new:'' @ path f,
                                uniqueIds = [''new:'' @ path f], loaderType = ''LocalPathLoader''\<rparr>),
      deleteLoader = (\<lambda>uid. True)\<rparr>"

definition file_a :: FileType where
  "file_a = \<lparr>path = ''/d/a.txt'', file_size = 50, file_lastModified = 10\<rparr>"

definition file_b :: FileType where
  "file_b = \<lparr>path = ''/d/b.txt'', file_size = 60, file_lastModified = 20\<rparr>"

definition file_c :: FileType where
  "file_c = \<lparr>path = ''/d/c.txt'', file_size = 70, file_lastModified = 30\<rparr>"

definition row_a :: FileMetadata where
  "row_a = \<lparr>filePath = ''/d/a.txt'', lastModified = 10, size_bytes = 50, hash = ''h1'',
            embedjs_unique_id = ''old:a''\<rparr>"

definition row_b :: FileMetadata where
  "row_b = \<lparr>filePath = ''/d/b.txt'', lastModified = 20, size_bytes = 60, hash = ''h2'',
            embedjs_unique_id = ''old:b''\<rparr>"

definition doc_a :: DocumentMetadata where
  "doc_a = \<lparr>knowledge_base_id = ''kb'', file_path = ''/d/a.txt'', content_hash = ''h1'',
            unique_id_embedjs = ''old:a'', loader_type = ''LocalPathLoader'',
            last_modified_timestamp = 10\<rparr>"

definition doc_b :: DocumentMetadata where
  "doc_b = \<lparr>knowledge_base_id = ''kb'', file_path = ''/d/b.txt'', content_hash = ''h2'',
            unique_id_embedjs = ''old:b'', loader_type = ''LocalPathLoader'',
            last_modified_timestamp = 20\<rparr>"

section \<open>Properties of the scheduler\<close>

subsection \<open>The admission scan preserves the bounds\<close>

lemma processing_of_append: "processing_of (xs @ ys) = processing_of xs @ processing_of ys"
  by (simp add: processing_of_def)

lemma processing_workloads_append:
  "processing_workloads (xs @ ys) = processing_workloads xs @ processing_workloads ys"
  by (simp add: processing_workloads_def)

lemma largest_append: "largest (xs @ ys) = max (largest xs) (largest ys)"
  by (induction xs) auto

lemma scan_items_count:
  "scan_items w c items = (w', c', items', adm, brk) \<Longrightarrow>
   c \<le> MAXIMUM_PROCESSING_ITEM_COUNT \<Longrightarrow> c' \<le> MAXIMUM_PROCESSING_ITEM_COUNT"
proof (induction w c items arbitrary: w' c' items' adm brk rule: scan_items.induct)
  case (1 w c)
  then show ?case by simp
next
  case (2 w c item items)
  show ?case
  proof (cases "maximumLoad w c")
    case True
    with 2 show ?thesis by simp
  next
    case nl: False
    show ?thesis
    proof (cases "state item \<noteq> PENDING")
      case True
      with nl 2 show ?thesis by (auto split: prod.splits)
    next
      case False
      from nl have "c + 1 \<le> MAXIMUM_PROCESSING_ITEM_COUNT" by (simp add: maximumLoad_def)
      with False nl 2 show ?thesis by (auto split: prod.splits)
    qed
  qed
qed

lemma scan_items_sum:
  "scan_items w c items = (w', c', items', adm, brk) \<Longrightarrow>
   w' - int (sum_list (processing_of items')) = w - int (sum_list (processing_of items))"
proof (induction w c items arbitrary: w' c' items' adm brk rule: scan_items.induct)
  case (1 w c)
  then show ?case by simp
next
  case (2 w c item items)
  show ?case
  proof (cases "maximumLoad w c")
    case True
    with 2 show ?thesis by simp
  next
    case nl: False
    show ?thesis
    proof (cases "state item \<noteq> PENDING")
      case True
      with nl 2 show ?thesis by (auto split: prod.splits simp: processing_of_def)
    next
      case False
      with nl 2 show ?thesis by (fastforce split: prod.splits simp: processing_of_def)
    qed
  qed
qed

lemma scan_items_bound:
  "scan_items w c items = (w', c', items', adm, brk) \<Longrightarrow>
   w < MAXIMUM_WORKLOAD + int (max m (largest (processing_of items))) \<Longrightarrow>
   w' < MAXIMUM_WORKLOAD + int (max m (largest (processing_of items')))"
proof (induction w c items arbitrary: w' c' items' adm brk m rule: scan_items.induct)
  case (1 w c)
  then show ?case by simp
next
  case (2 w c item items)
  show ?case
  proof (cases "maximumLoad w c")
    case True
    with 2 show ?thesis by simp
  next
    case nl: False
    show ?thesis
    proof (cases "state item \<noteq> PENDING")
      case np: True
      obtain a b cc d e where sc: "scan_items w c items = (a, b, cc, d, e)"
        by (metis prod_cases5)
      with nl np "2.prems"(1) have eq: "w' = a" "items' = item # cc" by auto
      show ?thesis
      proof (cases "state item = PROCESSING")
        case True
        with "2.prems"(2) have "w < MAXIMUM_WORKLOAD + int (max (max m (evaluateTaskWorkload item)) (largest (processing_of items)))"
          by (simp add: processing_of_def max.assoc)
        from "2.IH"(1)[OF nl np sc this] True eq show ?thesis
          by (simp add: processing_of_def max.assoc)
      next
        case False
        with "2.prems"(2) have "w < MAXIMUM_WORKLOAD + int (max m (largest (processing_of items)))"
          by (simp add: processing_of_def)
        from "2.IH"(1)[OF nl np sc this] False eq show ?thesis
          by (simp add: processing_of_def)
      qed
    next
      case pe: False
      obtain a b cc d e where sc: "scan_items (w + int (evaluateTaskWorkload item)) (c + 1) items = (a, b, cc, d, e)"
        by (metis prod_cases5)
      with nl pe "2.prems"(1) have eq: "w' = a" "items' = item\<lparr>state := PROCESSING\<rparr> # cc" by auto
      from nl have "w < MAXIMUM_WORKLOAD" by (simp add: maximumLoad_def)
      then have "w + int (evaluateTaskWorkload item) < MAXIMUM_WORKLOAD + int (max (max m (evaluateTaskWorkload item)) (largest (processing_of items)))"
        by simp
      from "2.IH"(2)[OF nl pe sc this] eq show ?thesis
        by (simp add: processing_of_def max.assoc)
    qed
  qed
qed

lemma scan_tasks_count:
  "scan_tasks w c tasks = (w', c', tasks', adm) \<Longrightarrow>
   c \<le> MAXIMUM_PROCESSING_ITEM_COUNT \<Longrightarrow> c' \<le> MAXIMUM_PROCESSING_ITEM_COUNT"
proof (induction tasks arbitrary: w c w' c' tasks' adm)
  case Nil
  then show ?case by simp
next
  case (Cons task tasks)
  obtain w1 c1 items1 adm1 brk where si: "scan_items w c (loaderTasks task) = (w1, c1, items1, adm1, brk)"
    by (metis prod_cases5)
  from scan_items_count[OF si Cons.prems(2)] have c1: "c1 \<le> MAXIMUM_PROCESSING_ITEM_COUNT" .
  show ?case
  proof (cases brk)
    case True
    with si Cons.prems(1) c1 show ?thesis by simp
  next
    case False
    obtain w2 c2 tasks2 adm2 where st: "scan_tasks w1 c1 tasks = (w2, c2, tasks2, adm2)"
      by (metis prod_cases4)
    from Cons.IH[OF st c1] si st False Cons.prems(1) show ?thesis by simp
  qed
qed

lemma scan_tasks_sum:
  "scan_tasks w c tasks = (w', c', tasks', adm) \<Longrightarrow>
   w' - int (sum_list (processing_workloads tasks')) = w - int (sum_list (processing_workloads tasks))"
proof (induction tasks arbitrary: w c w' c' tasks' adm)
  case Nil
  then show ?case by simp
next
  case (Cons task tasks)
  obtain w1 c1 items1 adm1 brk where si: "scan_items w c (loaderTasks task) = (w1, c1, items1, adm1, brk)"
    by (metis prod_cases5)
  note s1 = scan_items_sum[OF si]
  show ?case
  proof (cases brk)
    case True
    with si Cons.prems(1) s1 show ?thesis by (auto simp: processing_workloads_def)
  next
    case False
    obtain w2 c2 tasks2 adm2 where st: "scan_tasks w1 c1 tasks = (w2, c2, tasks2, adm2)"
      by (metis prod_cases4)
    from Cons.IH[OF st] s1 si st False Cons.prems(1) show ?thesis
      by (auto simp: processing_workloads_def)
  qed
qed

lemma processing_workloads_Cons:
  "processing_workloads (t # ts) = processing_of (loaderTasks t) @ processing_workloads ts"
  by (simp add: processing_workloads_def)

lemma scan_tasks_bound:
  "scan_tasks w c tasks = (w', c', tasks', adm) \<Longrightarrow>
   w < MAXIMUM_WORKLOAD + int (max m (largest (processing_workloads tasks))) \<Longrightarrow>
   w' < MAXIMUM_WORKLOAD + int (max m (largest (processing_workloads tasks')))"
proof (induction tasks arbitrary: w c w' c' tasks' adm m)
  case Nil
  then show ?case by simp
next
  case (Cons task tasks)
  obtain w1 c1 items1 adm1 brk where si: "scan_items w c (loaderTasks task) = (w1, c1, items1, adm1, brk)"
    by (metis prod_cases5)
  let ?r = "largest (processing_workloads tasks)"
  from Cons.prems(2)
  have "w < MAXIMUM_WORKLOAD + int (max (max m ?r) (largest (processing_of (loaderTasks task))))"
    by (simp add: processing_workloads_Cons largest_append max.assoc max.commute)
  from scan_items_bound[OF si this]
  have b1: "w1 < MAXIMUM_WORKLOAD + int (max (max m ?r) (largest (processing_of items1)))" .
  show ?case
  proof (cases brk)
    case True
    with si Cons.prems(1) have "w' = w1" "tasks' = task\<lparr>loaderTasks := items1\<rparr> # tasks" by auto
    with b1 show ?thesis
      by (simp add: processing_workloads_Cons largest_append max.assoc max.commute)
  next
    case False
    obtain w2 c2 tasks2 adm2 where st: "scan_tasks w1 c1 tasks = (w2, c2, tasks2, adm2)"
      by (metis prod_cases4)
    with si False Cons.prems(1) have eq: "w' = w2" "tasks' = task\<lparr>loaderTasks := items1\<rparr> # tasks2" by auto
    from b1 have "w1 < MAXIMUM_WORKLOAD + int (max (max m (largest (processing_of items1))) ?r)"
      by (simp add: max.assoc max.commute)
    from Cons.IH[OF st this] eq show ?thesis
      by (simp add: processing_workloads_Cons largest_append max.assoc max.commute)
  qed
qed

subsection \<open>The bounds hold in every reachable state\<close>

lemma cap_inv_initial: "cap_inv initial"
  by (simp add: cap_inv_def initial_def processing_workloads_def MAXIMUM_WORKLOAD_def
      MAXIMUM_PROCESSING_ITEM_COUNT_def MB_def)

lemma cap_inv_processingQueueHandle:
  assumes "cap_inv s"
  shows "cap_inv (processingQueueHandle s)"
proof -
  obtain w c tasks adm where st:
    "scan_tasks (workload s) (processingItemCount s) (knowledgeItemProcessingQueueMappingPromise s)
       = (w, c, tasks, adm)"
    by (metis prod_cases4)
  then have eq: "processingQueueHandle s =
      s\<lparr>workload := w, processingItemCount := c, knowledgeItemProcessingQueueMappingPromise := tasks\<rparr>"
    by (simp add: processingQueueHandle_def getSubtasksUntilMaximumLoad_def)
  from assms have a: "processingItemCount s \<le> MAXIMUM_PROCESSING_ITEM_COUNT"
    and b: "workload s = int (sum_list (processing_workloads (knowledgeItemProcessingQueueMappingPromise s)))"
    and c: "workload s < MAXIMUM_WORKLOAD +
        int (max 0 (largest (processing_workloads (knowledgeItemProcessingQueueMappingPromise s))))"
    by (simp_all add: cap_inv_def)
  from scan_tasks_count[OF st a] scan_tasks_sum[OF st] b scan_tasks_bound[OF st c]
  show ?thesis unfolding eq cap_inv_def by simp
qed

lemma processing_of_pending [simp]:
  "processing_of (map (\<lambda>w. \<lparr>state = PENDING, evaluateTaskWorkload = w\<rparr>) ws) = []"
  by (induction ws) (simp_all add: processing_of_def)

lemma cap_inv_add: "cap_inv s \<Longrightarrow> cap_inv (add s tid ws)"
  unfolding add_def
  by (rule cap_inv_processingQueueHandle)
     (simp add: cap_inv_def appendProcessingQueue_def processing_workloads_append
        processing_workloads_Cons, simp add: processing_workloads_def)

lemma bound_remove:
  assumes "int (sum_list (xs @ y # ys)) < M + int (largest (xs @ y # ys))"
  shows "int (sum_list (xs @ ys)) < M + int (largest (xs @ ys))"
proof (cases "y \<le> largest (xs @ ys)")
  case True
  then have "largest (xs @ y # ys) = largest (xs @ ys)"
    unfolding largest_append largest.simps by linarith
  with assms show ?thesis by simp
next
  case False
  then have "largest (xs @ y # ys) = y"
    unfolding largest_append largest.simps by linarith
  with assms show ?thesis by simp
qed

lemma processing_of_split:
  assumes "i < length items" "state (items ! i) = PROCESSING"
  shows "processing_of items = processing_of (take i items) @ evaluateTaskWorkload (items ! i) #
           processing_of (drop (Suc i) items)"
    and "processing_of (delete_at i items) = processing_of (take i items) @ processing_of (drop (Suc i) items)"
proof -
  have "items = take i items @ items ! i # drop (Suc i) items"
    using assms(1) by (simp add: id_take_nth_drop)
  then have "processing_of items = processing_of (take i items @ items ! i # drop (Suc i) items)" by simp
  also have "\<dots> = processing_of (take i items) @ evaluateTaskWorkload (items ! i) #
           processing_of (drop (Suc i) items)"
    using assms(2) by (simp add: processing_of_def)
  finally show "processing_of items = processing_of (take i items) @ evaluateTaskWorkload (items ! i) #
           processing_of (drop (Suc i) items)" .
  show "processing_of (delete_at i items) = processing_of (take i items) @ processing_of (drop (Suc i) items)"
    by (simp add: delete_at_def processing_of_append)
qed

lemma cap_inv_complete:
  assumes inv: "cap_inv s"
    and g: "g < length (knowledgeItemProcessingQueueMappingPromise s)"
    and i: "i < length (loaderTasks (knowledgeItemProcessingQueueMappingPromise s ! g))"
    and st: "state (loaderTasks (knowledgeItemProcessingQueueMappingPromise s ! g) ! i) = PROCESSING"
  shows "cap_inv (complete s g i)"
proof -
  define tasks where "tasks = knowledgeItemProcessingQueueMappingPromise s"
  define task where "task = tasks ! g"
  define item where "item = loaderTasks task ! i"
  define items' where "items' = delete_at i (loaderTasks task)"
  define y where "y = evaluateTaskWorkload item"
  define A where "A = processing_workloads (take g tasks) @ processing_of (take i (loaderTasks task))"
  define B where "B = processing_of (drop (Suc i) (loaderTasks task)) @ processing_workloads (drop (Suc g) tasks)"
  define s1 where "s1 = s\<lparr>workload := workload s - int y, processingItemCount := processingItemCount s - 1\<rparr>"
  define s2 where "s2 = (if items' = []
                then s1\<lparr>knowledgeItemProcessingQueueMappingPromise := delete_at g tasks,
                        resolved := resolved s1 @ [task_id task]\<rparr>
                else s1\<lparr>knowledgeItemProcessingQueueMappingPromise :=
                          tasks[g := task\<lparr>loaderTasks := items'\<rparr>]\<rparr>)"
  have ceq: "complete s g i = processingQueueHandle s2"
    by (simp add: complete_def Let_def s2_def s1_def y_def item_def items'_def task_def tasks_def)
  have tsplit: "tasks = take g tasks @ task # drop (Suc g) tasks"
    using g by (simp add: id_take_nth_drop tasks_def task_def)
  from i st have ps: "processing_of (loaderTasks task) =
       processing_of (take i (loaderTasks task)) @ y # processing_of (drop (Suc i) (loaderTasks task))"
    and pd: "processing_of items' =
       processing_of (take i (loaderTasks task)) @ processing_of (drop (Suc i) (loaderTasks task))"
    unfolding y_def item_def items'_def task_def tasks_def
    by (rule processing_of_split)+
  have old: "processing_workloads tasks = A @ y # B"
    by (subst tsplit) (simp add: processing_workloads_append processing_workloads_Cons ps A_def B_def)
  have new: "processing_workloads (knowledgeItemProcessingQueueMappingPromise s2) = A @ B"
  proof (cases "items' = []")
    case True
    with pd have "processing_of (take i (loaderTasks task)) = []" "processing_of (drop (Suc i) (loaderTasks task)) = []"
      by (simp_all add: processing_of_def)
    with True show ?thesis
      by (simp add: s2_def s1_def delete_at_def processing_workloads_append A_def B_def)
  next
    case False
    have "tasks[g := task\<lparr>loaderTasks := items'\<rparr>] = take g tasks @ task\<lparr>loaderTasks := items'\<rparr> # drop (Suc g) tasks"
      using g by (simp add: upd_conv_take_nth_drop tasks_def)
    with False show ?thesis
      by (simp add: s2_def s1_def processing_workloads_append processing_workloads_Cons pd A_def B_def)
  qed
  have w2: "workload s2 = workload s - int y" and c2: "processingItemCount s2 = processingItemCount s - 1"
    by (simp_all add: s2_def s1_def)
  from inv have a: "processingItemCount s \<le> MAXIMUM_PROCESSING_ITEM_COUNT"
    and b: "workload s = int (sum_list (A @ y # B))"
    and c: "workload s < MAXIMUM_WORKLOAD + int (largest (A @ y # B))"
    unfolding cap_inv_def tasks_def[symmetric] old by simp_all
  from b c have "int (sum_list (A @ B)) < MAXIMUM_WORKLOAD + int (largest (A @ B))"
    using bound_remove[of A y B MAXIMUM_WORKLOAD] by simp
  with a b have "cap_inv s2"
    unfolding cap_inv_def new w2 c2 by simp
  then show ?thesis unfolding ceq by (rule cap_inv_processingQueueHandle)
qed

lemma reachable_cap_inv: "reachable s \<Longrightarrow> cap_inv s"
  by (induction rule: reachable.induct)
     (simp_all add: cap_inv_initial cap_inv_add cap_inv_complete)

subsection \<open>What the scan admits and where it stops\<close>

lemma admitted_below_caps_append:
  "admitted_below_caps w c (xs @ ys) \<longleftrightarrow>
     admitted_below_caps w c xs \<and>
     admitted_below_caps (w + int (sum_list xs)) (c + int (length xs)) ys"
  by (induction xs arbitrary: w c) (auto simp: algebra_simps)

lemma scan_items_admitted:
  "scan_items w c items = (w', c', items', adm, brk) \<Longrightarrow>
   admitted_below_caps w c adm \<and> w' = w + int (sum_list adm) \<and> c' = c + int (length adm)"
proof (induction w c items arbitrary: w' c' items' adm brk rule: scan_items.induct)
  case (1 w c)
  then show ?case by simp
next
  case (2 w c item items)
  show ?case
  proof (cases "maximumLoad w c")
    case True
    with 2 show ?thesis by simp
  next
    case nl: False
    show ?thesis
    proof (cases "state item \<noteq> PENDING")
      case np: True
      obtain a b cc d e where sc: "scan_items w c items = (a, b, cc, d, e)"
        by (metis prod_cases5)
      with nl np "2.prems" have eq: "w' = a" "c' = b" "adm = d" by auto
      from "2.IH"(1)[OF nl np sc] show ?thesis unfolding eq by simp
    next
      case pe: False
      obtain a b cc d e where sc:
        "scan_items (w + int (evaluateTaskWorkload item)) (c + 1) items = (a, b, cc, d, e)"
        by (metis prod_cases5)
      with nl pe "2.prems" have eq: "w' = a" "c' = b" "adm = evaluateTaskWorkload item # d" by auto
      from nl have "w < MAXIMUM_WORKLOAD" "c < MAXIMUM_PROCESSING_ITEM_COUNT"
        by (simp_all add: maximumLoad_def)
      with "2.IH"(2)[OF nl pe sc] show ?thesis unfolding eq by simp
    qed
  qed
qed

lemma scan_items_stop:
  "scan_items w c items = (w', c', items', adm, brk) \<Longrightarrow>
   (if brk then maximumLoad w' c' else \<not> list_ex (\<lambda>it. state it = PENDING) items')"
proof (induction w c items arbitrary: w' c' items' adm brk rule: scan_items.induct)
  case (1 w c)
  then show ?case by simp
next
  case (2 w c item items)
  show ?case
  proof (cases "maximumLoad w c")
    case True
    with 2 show ?thesis by auto
  next
    case nl: False
    show ?thesis
    proof (cases "state item \<noteq> PENDING")
      case np: True
      obtain a b cc d e where sc: "scan_items w c items = (a, b, cc, d, e)"
        by (metis prod_cases5)
      with nl np "2.prems" have eq: "w' = a" "c' = b" "items' = item # cc" "brk = e" by auto
      from "2.IH"(1)[OF nl np sc] np show ?thesis unfolding eq by (cases e) simp_all
    next
      case pe: False
      obtain a b cc d e where sc:
        "scan_items (w + int (evaluateTaskWorkload item)) (c + 1) items = (a, b, cc, d, e)"
        by (metis prod_cases5)
      with nl pe "2.prems" have eq: "w' = a" "c' = b"
        "items' = item\<lparr>state := PROCESSING\<rparr> # cc" "brk = e" by auto
      from "2.IH"(2)[OF nl pe sc] show ?thesis unfolding eq by (cases e) simp_all
    qed
  qed
qed

lemma scan_tasks_admitted:
  "scan_tasks w c tasks = (w', c', tasks', adm) \<Longrightarrow>
   admitted_below_caps w c adm \<and> w' = w + int (sum_list adm) \<and> c' = c + int (length adm)"
proof (induction tasks arbitrary: w c w' c' tasks' adm)
  case Nil
  then show ?case by simp
next
  case (Cons task tasks)
  obtain w1 c1 items1 adm1 brk where si: "scan_items w c (loaderTasks task) = (w1, c1, items1, adm1, brk)"
    by (metis prod_cases5)
  note a1 = scan_items_admitted[OF si]
  show ?case
  proof (cases brk)
    case True
    with si Cons.prems(1) a1 show ?thesis by auto
  next
    case False
    obtain w2 c2 tasks2 adm2 where st: "scan_tasks w1 c1 tasks = (w2, c2, tasks2, adm2)"
      by (metis prod_cases4)
    with si False Cons.prems(1) have eq: "w' = w2" "c' = c2" "adm = adm1 @ adm2" by auto
    from Cons.IH[OF st] a1 show ?thesis
      unfolding eq admitted_below_caps_append by simp
  qed
qed

lemma scan_tasks_stop:
  "scan_tasks w c tasks = (w', c', tasks', adm) \<Longrightarrow>
   pending_left tasks' \<Longrightarrow> maximumLoad w' c'"
proof (induction tasks arbitrary: w c w' c' tasks' adm)
  case Nil
  then show ?case by (simp add: pending_left_def)
next
  case (Cons task tasks)
  obtain w1 c1 items1 adm1 brk where si: "scan_items w c (loaderTasks task) = (w1, c1, items1, adm1, brk)"
    by (metis prod_cases5)
  note a1 = scan_items_stop[OF si]
  show ?case
  proof (cases brk)
    case True
    with si Cons.prems(1) a1 show ?thesis by auto
  next
    case False
    obtain w2 c2 tasks2 adm2 where st: "scan_tasks w1 c1 tasks = (w2, c2, tasks2, adm2)"
      by (metis prod_cases4)
    with si False Cons.prems(1) have eq: "w' = w2" "c' = c2" "tasks' = task\<lparr>loaderTasks := items1\<rparr> # tasks2" by auto
    with Cons.prems(2) a1 False have "pending_left tasks2" by (simp add: pending_left_def)
    from Cons.IH[OF st this] eq show ?thesis by simp
  qed
qed

subsection \<open>Cap respect\<close>

text \<open>
  C1 (as amended). In every reachable state of the scheduler, whatever the workload estimates
  of the submitted items, \<^verbatim>\<open>processingItemCount\<close> is at most
  \<^verbatim>\<open>MAXIMUM_PROCESSING_ITEM_COUNT\<close>, and \<^verbatim>\<open>workload\<close> is below
  \<^verbatim>\<open>MAXIMUM_WORKLOAD\<close> plus the largest workload estimate among the items being
  processed: the scan tests the counters before it admits an item, not the sum the
  admission would produce.
\<close>

theorem cap_respect_amended:
  "reachable s \<Longrightarrow>
   processingItemCount s \<le> MAXIMUM_PROCESSING_ITEM_COUNT \<and>
   workload s < MAXIMUM_WORKLOAD +
     int (largest (processing_workloads (knowledgeItemProcessingQueueMappingPromise s)))"
  using reachable_cap_inv[of s] by (simp add: cap_inv_def)

text \<open>Two items of 60 MB each, submitted to the idle scheduler, are both admitted.\<close>

lemma add_two_sixty:
  "add initial 0 [62914560, 62914560] =
     \<lparr>workload = 125829120, processingItemCount = 2,
      knowledgeItemProcessingQueueMappingPromise =
        [\<lparr>task_id = 0, loaderTasks =
           [\<lparr>state = PROCESSING, evaluateTaskWorkload = 62914560\<rparr>,
            \<lparr>state = PROCESSING, evaluateTaskWorkload = 62914560\<rparr>]\<rparr>],
      resolved = []\<rparr>"
  by (simp add: add_def processingQueueHandle_def getSubtasksUntilMaximumLoad_def
      appendProcessingQueue_def initial_def maximumLoad_def MAXIMUM_WORKLOAD_def
      MAXIMUM_PROCESSING_ITEM_COUNT_def MB_def)

text \<open>C1, the amended bound at the state reached by submitting two items of 60 MB.\<close>

theorem cap_respect_amended_witness:
  "reachable (add initial 0 [62914560, 62914560]) \<and>
   processingItemCount (add initial 0 [62914560, 62914560]) \<le> 30 \<and>
   workload (add initial 0 [62914560, 62914560]) < 83886080 + 62914560"
proof -
  have r: "reachable (add initial 0 [62914560, 62914560])"
    by (rule r_add, rule r_init)
  from cap_respect_amended[OF r] r show ?thesis
    unfolding add_two_sixty
    by (simp add: processing_workloads_def processing_of_def
        MAXIMUM_WORKLOAD_def MAXIMUM_PROCESSING_ITEM_COUNT_def MB_def)
qed

text \<open>C1 as stated fails: after the submission of two items of 60 MB, each below the cap,
  the reachable state has a workload of 120 MB, above \<^verbatim>\<open>MAXIMUM_WORKLOAD\<close>.\<close>

theorem cap_respect_counterexample:
  "reachable (add initial 0 [62914560, 62914560]) \<and>
   \<not> workload (add initial 0 [62914560, 62914560]) \<le> MAXIMUM_WORKLOAD"
proof -
  have r: "reachable (add initial 0 [62914560, 62914560])"
    by (rule r_add, rule r_init)
  have "\<not> workload (add initial 0 [62914560, 62914560]) \<le> MAXIMUM_WORKLOAD"
    unfolding add_two_sixty by (simp add: MAXIMUM_WORKLOAD_def MB_def)
  with r show ?thesis by simp
qed

subsection \<open>The admission scan\<close>

text \<open>The outcome of a scan against its input: the items of the map split into the items
  the scan passed and the items it did not reach; the \<^const>\<open>PENDING\<close> items it passed are
  the admitted ones, and nothing else changes.\<close>

lemma scan_items_shape:
  "scan_items w c items = (w', c', items', adm, brk) \<Longrightarrow>
     \<exists>pre post. items = pre @ post \<and> items' = map admit pre @ post \<and>
        adm = pending_workloads pre \<and> (brk \<longleftrightarrow> post \<noteq> [])"
proof (induction w c items arbitrary: w' c' items' adm brk rule: scan_items.induct)
  case (1 w c)
  then show ?case by (simp add: pending_workloads_def)
next
  case (2 w c item items)
  show ?case
  proof (cases "maximumLoad w c")
    case True
    with 2(3) have "items' = item # items" "adm = []" "brk" by simp_all
    then show ?thesis
      by (intro exI[of _ "[]"] exI[of _ "item # items"]) (simp add: pending_workloads_def)
  next
    case False
    show ?thesis
    proof (cases "state item = PENDING")
      case np: False
      obtain a b cc d e where sc: "scan_items w c items = (a, b, cc, d, e)"
        by (metis prod_cases5)
      from 2(3) False np sc have eq: "items' = item # cc" "adm = d" "brk = e" by simp_all
      from 2(1)[OF False np sc] obtain pre post where
        "items = pre @ post" "cc = map admit pre @ post" "d = pending_workloads pre"
        "e \<longleftrightarrow> post \<noteq> []" by blast
      with np eq show ?thesis
        by (intro exI[of _ "item # pre"] exI[of _ post])
           (simp add: pending_workloads_def admit_def)
    next
      case p: True
      obtain a b cc d e where sc:
        "scan_items (w + int (evaluateTaskWorkload item)) (c + 1) items = (a, b, cc, d, e)"
        by (metis prod_cases5)
      from 2(3) False p sc have eq: "items' = item\<lparr>state := PROCESSING\<rparr> # cc"
        "adm = evaluateTaskWorkload item # d" "brk = e" by simp_all
      from 2(2)[OF False _ sc] p obtain pre post where
        "items = pre @ post" "cc = map admit pre @ post" "d = pending_workloads pre"
        "e \<longleftrightarrow> post \<noteq> []" by blast
      with p eq show ?thesis
        by (intro exI[of _ "item # pre"] exI[of _ post])
           (simp add: pending_workloads_def admit_def)
    qed
  qed
qed

lemma scan_tasks_shape:
  "scan_tasks w c tasks = (w', c', tasks', adm) \<Longrightarrow>
     (\<exists>pre post. items_of tasks = pre @ post \<and> items_of tasks' = map admit pre @ post \<and>
        adm = pending_workloads pre \<and> (post \<noteq> [] \<longrightarrow> maximumLoad w' c')) \<and>
     map task_id tasks' = map task_id tasks \<and>
     map (\<lambda>t. length (loaderTasks t)) tasks' = map (\<lambda>t. length (loaderTasks t)) tasks"
proof (induction tasks arbitrary: w c w' c' tasks' adm)
  case Nil
  then show ?case by (simp add: items_of_def pending_workloads_def)
next
  case (Cons task tasks)
  obtain w1 c1 items1 adm1 brk where si:
    "scan_items w c (loaderTasks task) = (w1, c1, items1, adm1, brk)"
    by (metis prod_cases5)
  from scan_items_shape[OF si] obtain pre1 post1 where sh1:
    "loaderTasks task = pre1 @ post1" "items1 = map admit pre1 @ post1"
    "adm1 = pending_workloads pre1" "brk \<longleftrightarrow> post1 \<noteq> []" by blast
  have len1: "length items1 = length (loaderTasks task)" using sh1 by simp
  show ?case
  proof (cases brk)
    case True
    with Cons.prems si have eq: "w' = w1" "c' = c1"
      "tasks' = task\<lparr>loaderTasks := items1\<rparr> # tasks" "adm = adm1" by simp_all
    from scan_items_stop[OF si] True have ml: "maximumLoad w1 c1" by simp
    have "items_of (task # tasks) = pre1 @ (post1 @ items_of tasks)"
      using sh1 by (simp add: items_of_def)
    moreover have "items_of tasks' = map admit pre1 @ (post1 @ items_of tasks)"
      using sh1 eq by (simp add: items_of_def)
    ultimately have "\<exists>pre post. items_of (task # tasks) = pre @ post \<and>
        items_of tasks' = map admit pre @ post \<and>
        adm = pending_workloads pre \<and> (post \<noteq> [] \<longrightarrow> maximumLoad w' c')"
      using eq sh1 ml by blast
    then show ?thesis using eq len1 by simp
  next
    case False
    obtain w2 c2 tasks2 adm2 where st: "scan_tasks w1 c1 tasks = (w2, c2, tasks2, adm2)"
      by (metis prod_cases4)
    with Cons.prems si False have eq: "w' = w2" "c' = c2"
      "tasks' = task\<lparr>loaderTasks := items1\<rparr> # tasks2" "adm = adm1 @ adm2" by simp_all
    from Cons.IH[OF st] obtain pre2 post2 where sh2:
      "items_of tasks = pre2 @ post2" "items_of tasks2 = map admit pre2 @ post2"
      "adm2 = pending_workloads pre2" "post2 \<noteq> [] \<longrightarrow> maximumLoad w2 c2"
      and keep: "map task_id tasks2 = map task_id tasks"
        "map (\<lambda>t. length (loaderTasks t)) tasks2 = map (\<lambda>t. length (loaderTasks t)) tasks"
      by blast
    from False sh1 have p1: "post1 = []" by simp
    have "items_of (task # tasks) = (pre1 @ pre2) @ post2"
      using sh1 sh2 p1 by (simp add: items_of_def)
    moreover have "items_of tasks' = map admit (pre1 @ pre2) @ post2"
      using sh1 sh2 p1 eq by (simp add: items_of_def)
    moreover have "adm = pending_workloads (pre1 @ pre2)"
      using eq sh1 sh2 by (simp add: pending_workloads_def)
    ultimately have "\<exists>pre post. items_of (task # tasks) = pre @ post \<and>
        items_of tasks' = map admit pre @ post \<and>
        adm = pending_workloads pre \<and> (post \<noteq> [] \<longrightarrow> maximumLoad w' c')"
      using eq sh2(4) by blast
    then show ?thesis using eq keep len1 by simp
  qed
qed

text \<open>
  C2 (as amended). In one admission scan, the items of the map, taken in the order of the
  scan, split into a part that the scan passes and a rest that it leaves untouched: every
  \<^const>\<open>PENDING\<close> item of the first part is moved to \<^const>\<open>PROCESSING\<close>, no other item
  changes, the groups keep their ids and sizes, and the admitted estimates are those of the
  items moved, in that order. Every item moved was admitted at a moment when the running
  workload total was below \<^verbatim>\<open>MAXIMUM_WORKLOAD\<close> and the running item count below
  \<^verbatim>\<open>MAXIMUM_PROCESSING_ITEM_COUNT\<close>, its own estimate not being looked at; the counters
  grow by the admitted estimates and by the number of admitted items; and the rest is non-empty,
  or an item is left \<^const>\<open>PENDING\<close>, only if, when the scan stops, the item count has
  reached its cap or the workload total has reached or passed its cap.
\<close>

theorem admission_scan_amended:
  assumes "getSubtasksUntilMaximumLoad s = (s', adm)"
  shows "(\<exists>pre post.
            items_of (knowledgeItemProcessingQueueMappingPromise s) = pre @ post \<and>
            items_of (knowledgeItemProcessingQueueMappingPromise s') = map admit pre @ post \<and>
            adm = pending_workloads pre \<and>
            (post = [] \<or> maximumLoad (workload s') (processingItemCount s'))) \<and>
         map task_id (knowledgeItemProcessingQueueMappingPromise s') =
           map task_id (knowledgeItemProcessingQueueMappingPromise s) \<and>
         map (\<lambda>t. length (loaderTasks t)) (knowledgeItemProcessingQueueMappingPromise s') =
           map (\<lambda>t. length (loaderTasks t)) (knowledgeItemProcessingQueueMappingPromise s) \<and>
         resolved s' = resolved s \<and>
         admitted_below_caps (workload s) (processingItemCount s) adm \<and>
         workload s' = workload s + int (sum_list adm) \<and>
         processingItemCount s' = processingItemCount s + int (length adm) \<and>
         (pending_left (knowledgeItemProcessingQueueMappingPromise s') \<longrightarrow>
            maximumLoad (workload s') (processingItemCount s'))"
proof -
  obtain w c tasks a where st:
    "scan_tasks (workload s) (processingItemCount s) (knowledgeItemProcessingQueueMappingPromise s)
       = (w, c, tasks, a)"
    by (metis prod_cases4)
  with assms have eq: "s' = s\<lparr>workload := w, processingItemCount := c,
       knowledgeItemProcessingQueueMappingPromise := tasks\<rparr>" "adm = a"
    by (simp_all add: getSubtasksUntilMaximumLoad_def)
  from scan_tasks_shape[OF st] obtain pre post where sh:
    "items_of (knowledgeItemProcessingQueueMappingPromise s) = pre @ post"
    "items_of tasks = map admit pre @ post" "a = pending_workloads pre"
    "post \<noteq> [] \<longrightarrow> maximumLoad w c"
    and keep: "map task_id tasks = map task_id (knowledgeItemProcessingQueueMappingPromise s)"
      "map (\<lambda>t. length (loaderTasks t)) tasks =
       map (\<lambda>t. length (loaderTasks t)) (knowledgeItemProcessingQueueMappingPromise s)"
    by blast
  have ex: "\<exists>pre post.
            items_of (knowledgeItemProcessingQueueMappingPromise s) = pre @ post \<and>
            items_of (knowledgeItemProcessingQueueMappingPromise s') = map admit pre @ post \<and>
            adm = pending_workloads pre \<and>
            (post = [] \<or> maximumLoad (workload s') (processingItemCount s'))"
    using sh unfolding eq by (intro exI[of _ pre] exI[of _ post]) auto
  from ex keep scan_tasks_admitted[OF st] scan_tasks_stop[OF st] show ?thesis
    unfolding eq by simp
qed

text \<open>C2, the amended statement at a scan that admits an item of 80 MB and defers the next
  one.\<close>

theorem admission_scan_amended_witness:
  "getSubtasksUntilMaximumLoad
     \<lparr>workload = 0, processingItemCount = 0,
      knowledgeItemProcessingQueueMappingPromise =
        [\<lparr>task_id = 0, loaderTasks =
           [\<lparr>state = PENDING, evaluateTaskWorkload = 83886080\<rparr>,
            \<lparr>state = PENDING, evaluateTaskWorkload = 5\<rparr>]\<rparr>],
      resolved = []\<rparr> =
   (\<lparr>workload = 83886080, processingItemCount = 1,
     knowledgeItemProcessingQueueMappingPromise =
        [\<lparr>task_id = 0, loaderTasks =
           [\<lparr>state = PROCESSING, evaluateTaskWorkload = 83886080\<rparr>,
            \<lparr>state = PENDING, evaluateTaskWorkload = 5\<rparr>]\<rparr>],
     resolved = []\<rparr>, [83886080]) \<and>
   items_of
        [\<lparr>task_id = 0, loaderTasks =
           [\<lparr>state = PROCESSING, evaluateTaskWorkload = 83886080\<rparr>,
            \<lparr>state = PENDING, evaluateTaskWorkload = 5\<rparr>]\<rparr>] =
     map admit [\<lparr>state = PENDING, evaluateTaskWorkload = 83886080\<rparr>] @
     [\<lparr>state = PENDING, evaluateTaskWorkload = 5\<rparr>] \<and>
   pending_workloads [\<lparr>state = PENDING, evaluateTaskWorkload = 83886080\<rparr>] = [83886080] \<and>
   admitted_below_caps 0 0 [83886080] \<and>
   pending_left
        [\<lparr>task_id = 0, loaderTasks =
           [\<lparr>state = PROCESSING, evaluateTaskWorkload = 83886080\<rparr>,
            \<lparr>state = PENDING, evaluateTaskWorkload = 5\<rparr>]\<rparr>] \<and>
   maximumLoad 83886080 1"
proof -
  have h: "getSubtasksUntilMaximumLoad
     \<lparr>workload = 0, processingItemCount = 0,
      knowledgeItemProcessingQueueMappingPromise =
        [\<lparr>task_id = 0, loaderTasks =
           [\<lparr>state = PENDING, evaluateTaskWorkload = 83886080\<rparr>,
            \<lparr>state = PENDING, evaluateTaskWorkload = 5\<rparr>]\<rparr>],
      resolved = []\<rparr> =
   (\<lparr>workload = 83886080, processingItemCount = 1,
     knowledgeItemProcessingQueueMappingPromise =
        [\<lparr>task_id = 0, loaderTasks =
           [\<lparr>state = PROCESSING, evaluateTaskWorkload = 83886080\<rparr>,
            \<lparr>state = PENDING, evaluateTaskWorkload = 5\<rparr>]\<rparr>],
     resolved = []\<rparr>, [83886080])"
    by (simp add: getSubtasksUntilMaximumLoad_def maximumLoad_def MAXIMUM_WORKLOAD_def
        MAXIMUM_PROCESSING_ITEM_COUNT_def MB_def)
  have p: "pending_left
        [\<lparr>task_id = 0, loaderTasks =
           [\<lparr>state = PROCESSING, evaluateTaskWorkload = 83886080\<rparr>,
            \<lparr>state = PENDING, evaluateTaskWorkload = 5\<rparr>]\<rparr>]"
    by (simp add: pending_left_def)
  have i: "items_of
        [\<lparr>task_id = 0, loaderTasks =
           [\<lparr>state = PROCESSING, evaluateTaskWorkload = 83886080\<rparr>,
            \<lparr>state = PENDING, evaluateTaskWorkload = 5\<rparr>]\<rparr>] =
     map admit [\<lparr>state = PENDING, evaluateTaskWorkload = 83886080\<rparr>] @
     [\<lparr>state = PENDING, evaluateTaskWorkload = 5\<rparr>]"
    "pending_workloads [\<lparr>state = PENDING, evaluateTaskWorkload = 83886080\<rparr>] = [83886080]"
    by (simp_all add: items_of_def admit_def pending_workloads_def)
  from admission_scan_amended[OF h] h p i show ?thesis by simp
qed

text \<open>C2 as stated fails: with a running total of 60 MB and one item being processed, a
  \<^const>\<open>PENDING\<close> item of 60 MB is moved to \<^const>\<open>PROCESSING\<close> although its workload added
  to the running total exceeds \<^verbatim>\<open>MAXIMUM_WORKLOAD\<close>.\<close>

theorem admission_scan_counterexample:
  "62914560 + int 62914560 > MAXIMUM_WORKLOAD \<and>
   scan_items 62914560 1 [\<lparr>state = PENDING, evaluateTaskWorkload = 62914560\<rparr>] =
     (125829120, 2, [\<lparr>state = PROCESSING, evaluateTaskWorkload = 62914560\<rparr>], [62914560], False)"
  by (simp add: maximumLoad_def MAXIMUM_WORKLOAD_def MAXIMUM_PROCESSING_ITEM_COUNT_def MB_def)

section \<open>Properties of the units of work\<close>

subsection \<open>Steps and their sequencing\<close>

lemma andThen_Inr: "m w = (w', Inr v) \<Longrightarrow> andThen m f w = f v w'"
  by (simp add: andThen_def)

lemma andThen_resolve [simp]: "andThen (resolve v) f w = f v w"
  by (simp add: andThen_def resolve_def)

lemma hash_Some: "calculateFileHash E p = Some h \<Longrightarrow> await_calculateFileHash E p w = (w, Inr h)"
  by (simp add: await_calculateFileHash_def)

lemma stat_Some: "statSync_mtimeMs E p = Some t \<Longrightarrow> call_statSync_mtimeMs E p w = (w, Inr t)"
  by (simp add: call_statSync_mtimeMs_def)

lemma incremental_file_existing:
  assumes "calculateFileHash E (path file) = Some h"
    and "statSync_mtimeMs E (path file) = Some t"
    and "M (path file) = Some m"
  shows "incremental_file E M file acc w =
     (if hash m \<noteq> h \<or> lastModified m \<noteq> t then
        andThen (await_deleteLoader E (embedjs_unique_id m)) (\<lambda>_.
        andThen (await_addFileLoader E file True) (\<lambda>result.
        andThen (await_updateFileMetadata (path file)
                   \<lparr>set_filePath = None, set_lastModified = Some t,
                    set_size_bytes = Some (file_size file), set_hash = Some h,
                    set_embedjs_unique_id = Some (uniqueId result)\<rparr>) (\<lambda>_.
        resolve (fst acc + 1, snd acc @ [uniqueId result])))) w
      else (w, Inr (fst acc, snd acc @ [filePath m])))"
  using assms
  by (simp add: incremental_file_def andThen_Inr[OF hash_Some] andThen_Inr[OF stat_Some] resolve_def)

lemma incremental_file_unchanged:
  assumes "calculateFileHash E (path file) = Some h"
    and "statSync_mtimeMs E (path file) = Some t"
    and "M (path file) = Some m" "hash m = h" "lastModified m = t"
  shows "incremental_file E M file acc w = (w, Inr (fst acc, snd acc @ [filePath m]))"
  using incremental_file_existing[of E "file" h t M m, OF assms(1-3)] assms(4,5) by simp

lemma incremental_file_changed_trace:
  assumes "calculateFileHash E (path file) = Some h"
    and "statSync_mtimeMs E (path file) = Some t"
    and "M (path file) = Some m" and "hash m \<noteq> h \<or> lastModified m \<noteq> t"
  shows "\<exists>evs. trace (fst (incremental_file E M file acc w)) =
           trace w @ DeleteLoader (embedjs_unique_id m) # evs"
proof -
  note eq = incremental_file_existing[of E "file" h t M m acc w, OF assms(1-3)]
  show ?thesis
  proof (cases "deleteLoader E (embedjs_unique_id m)")
    case False
    then show ?thesis
      using eq assms(4) by (simp add: andThen_def await_deleteLoader_def)
  next
    case dl: True
    show ?thesis
    proof (cases "addFileLoader E file True")
      case None
      then show ?thesis
        using eq assms(4) dl
        by (simp add: andThen_def await_deleteLoader_def await_addFileLoader_def)
    next
      case (Some result)
      then show ?thesis
        using eq assms(4) dl
        by (simp add: andThen_def await_deleteLoader_def await_addFileLoader_def
            await_updateFileMetadata_def resolve_def split: sum.splits)
    qed
  qed
qed

lemma incremental_file_changed_delete_fails:
  assumes "calculateFileHash E (path file) = Some h"
    and "statSync_mtimeMs E (path file) = Some t"
    and "M (path file) = Some m" and "hash m \<noteq> h \<or> lastModified m \<noteq> t"
    and "\<not> deleteLoader E (embedjs_unique_id m)"
  shows "incremental_file E M file acc w =
           (w\<lparr>trace := trace w @ [DeleteLoader (embedjs_unique_id m)]\<rparr>, Inl LoaderError)"
  using incremental_file_existing[of E "file" h t M m acc w, OF assms(1-3)] assms(4,5)
  by (simp add: andThen_def await_deleteLoader_def)

lemma updateFileMetadata_ok:
  assumes "\<not> list_ex (\<lambda>r. filePath r \<noteq> p \<and> embedjs_unique_id r = u) db"
  shows "updateFileMetadata db p
           \<lparr>set_filePath = None, set_lastModified = Some t, set_size_bytes = Some n,
            set_hash = Some h, set_embedjs_unique_id = Some u\<rparr> =
         Inr (map (\<lambda>r. if filePath r = p
                        then \<lparr>filePath = filePath r, lastModified = t, size_bytes = n, hash = h,
                              embedjs_unique_id = u\<rparr>
                        else r) db)"
proof -
  have "\<not> list_ex (\<lambda>r. filePath r \<noteq> p \<and> (None = Some (filePath r) \<or> Some u = Some (embedjs_unique_id r))) db"
    using assms by (auto simp: list_ex_iff)
  then show ?thesis
    by (simp add: updateFileMetadata_def apply_partial_def)
qed

lemma incremental_file_changed_ok:
  assumes "calculateFileHash E (path file) = Some h"
    and "statSync_mtimeMs E (path file) = Some t"
    and "M (path file) = Some m" and "hash m \<noteq> h \<or> lastModified m \<noteq> t"
    and "deleteLoader E (embedjs_unique_id m)"
    and "addFileLoader E file True = Some result"
    and "\<not> list_ex (\<lambda>r. filePath r \<noteq> path file \<and> embedjs_unique_id r = uniqueId result) (store w)"
  shows "incremental_file E M file acc w =
           (w\<lparr>store := map (\<lambda>r. if filePath r = path file
                                  then \<lparr>filePath = filePath r, lastModified = t,
                                        size_bytes = file_size file, hash = h,
                                        embedjs_unique_id = uniqueId result\<rparr>
                                  else r) (store w),
              trace := trace w @
                [DeleteLoader (embedjs_unique_id m), AddFileLoader (path file) True,
                 UpdateFileMetadata (path file)
                   \<lparr>set_filePath = None, set_lastModified = Some t,
                    set_size_bytes = Some (file_size file), set_hash = Some h,
                    set_embedjs_unique_id = Some (uniqueId result)\<rparr>]\<rparr>,
            Inr (fst acc + 1, snd acc @ [uniqueId result]))"
  using incremental_file_existing[of E "file" h t M m acc w, OF assms(1-3)] assms(4-6)
    updateFileMetadata_ok[OF assms(7), of t "file_size file" h]
  by (simp add: andThen_def await_deleteLoader_def await_addFileLoader_def
      await_updateFileMetadata_def resolve_def)

lemma metadata_map_Some:
  "metadata_map L p = Some m \<Longrightarrow> filePath m = p \<and> m \<in> set L"
  unfolding metadata_map_def
  by (auto dest!: map_of_SomeD)

lemma incremental_file_ids:
  "incremental_file E M file acc w = (w', Inr acc') \<Longrightarrow> \<exists>x. snd acc' = snd acc @ [x]"
  by (auto simp: incremental_file_def andThen_def resolve_def await_calculateFileHash_def
      call_statSync_mtimeMs_def await_deleteLoader_def await_addFileLoader_def
      await_updateFileMetadata_def await_insertFileMetadata_def
      split: option.splits sum.splits if_splits prod.splits)

lemma incremental_files_ids:
  "incremental_files E M files acc w = (w', Inr acc') \<Longrightarrow> \<exists>xs. snd acc' = snd acc @ xs"
proof (induction files arbitrary: acc w)
  case Nil
  then show ?case by (simp add: resolve_def)
next
  case (Cons f fs)
  obtain w1 r1 where s1: "incremental_file E M f acc w = (w1, r1)" by (cases "incremental_file E M f acc w")
  show ?case
  proof (cases r1)
    case (Inl e)
    with s1 Cons.prems show ?thesis by (simp add: andThen_def)
  next
    case (Inr acc1)
    with s1 Cons.prems have "incremental_files E M fs acc1 w1 = (w', Inr acc')" by (simp add: andThen_def)
    from Cons.IH[OF this] incremental_file_ids[OF s1[unfolded Inr]] show ?thesis by auto
  qed
qed

lemma incremental_files_unchanged_id:
  assumes "incremental_files E M files acc w = (w', Inr acc')"
    and "f \<in> set files" "M (path f) = Some m"
    and "calculateFileHash E (path f) = Some (hash m)"
    and "statSync_mtimeMs E (path f) = Some (lastModified m)"
  shows "filePath m \<in> set (snd acc')"
  using assms(1,2)
proof (induction files arbitrary: acc w)
  case Nil
  then show ?case by simp
next
  case (Cons g gs)
  obtain w1 r1 where s1: "incremental_file E M g acc w = (w1, r1)" by (cases "incremental_file E M g acc w")
  show ?case
  proof (cases r1)
    case (Inl e)
    with s1 Cons.prems show ?thesis by (simp add: andThen_def)
  next
    case (Inr acc1)
    with s1 Cons.prems have rest: "incremental_files E M gs acc1 w1 = (w', Inr acc')" by (simp add: andThen_def)
    show ?thesis
    proof (cases "f = g")
      case True
      from incremental_file_unchanged[of E f "hash m" "lastModified m" M m acc w, OF assms(4,5,3)]
      have "incremental_file E M f acc w = (w, Inr (fst acc, snd acc @ [filePath m]))" by simp
      with True s1 Inr have "snd acc1 = snd acc @ [filePath m]" by auto
      with incremental_files_ids[OF rest] show ?thesis by auto
    next
      case False
      with Cons.prems(2) have "f \<in> set gs" by simp
      from Cons.IH[OF rest this] show ?thesis .
    qed
  qed
qed

lemma incremental_files_all_unchanged:
  assumes "\<forall>f \<in> set files. \<exists>m. M (path f) = Some m \<and> filePath m = path f \<and>
             calculateFileHash E (path f) = Some (hash m) \<and>
             statSync_mtimeMs E (path f) = Some (lastModified m)"
  shows "incremental_files E M files acc w = (w, Inr (fst acc, snd acc @ map path files))"
  using assms
proof (induction files arbitrary: acc)
  case Nil
  then show ?case by (simp add: resolve_def)
next
  case (Cons f fs)
  then obtain m where m: "M (path f) = Some m" "calculateFileHash E (path f) = Some (hash m)"
    "statSync_mtimeMs E (path f) = Some (lastModified m)" "filePath m = path f" by auto
  from incremental_file_unchanged[of E f "hash m" "lastModified m" M m acc w, OF m(2,3,1)] m(4)
  have s1: "incremental_file E M f acc w = (w, Inr (fst acc, snd acc @ [path f]))" by simp
  have "\<forall>f \<in> set fs. \<exists>m. M (path f) = Some m \<and> filePath m = path f \<and>
             calculateFileHash E (path f) = Some (hash m) \<and>
             statSync_mtimeMs E (path f) = Some (lastModified m)" using Cons.prems by simp
  from Cons.IH[OF this, of "(fst acc, snd acc @ [path f])"] s1 show ?case
    by (simp add: andThen_def)
qed

lemma incremental_deleted_none:
  assumes "\<forall>m \<in> set L. filePath m \<in> set ps"
  shows "incremental_deleted E ps L w = (w, Inr ())"
  using assms by (induction L) (simp_all add: resolve_def)




lemma delete_existing_ok:
  assumes "forceReload \<or> content_hash m \<noteq> h" "deleteLoader E (unique_id_embedjs m)"
  shows "delete_existing E base_id (Some m) forceReload h w =
     (w\<lparr>store := deleteMetadataByEmbedjsUniqueId (store w) base_id (unique_id_embedjs m),
        trace := trace w @ [DeleteLoader (unique_id_embedjs m),
                            DeleteMetadataByEmbedjsUniqueId base_id (unique_id_embedjs m)]\<rparr>, Inr ())"
  using assms
  by (auto simp add: delete_existing_def andThen_def await_deleteLoader_def
      await_deleteMetadataByEmbedjsUniqueId_def)

lemma delete_existing_fails:
  assumes "forceReload \<or> content_hash m \<noteq> h" "\<not> deleteLoader E (unique_id_embedjs m)"
  shows "delete_existing E base_id (Some m) forceReload h w =
     (w\<lparr>trace := trace w @ [DeleteLoader (unique_id_embedjs m)]\<rparr>, Inl LoaderError)"
  using assms
  by (auto simp add: delete_existing_def andThen_def await_deleteLoader_def)

lemma file_task_ms_update:
  assumes "calculateFileHash E (path file) = Some h"
    and "getMetadataByPath (store w) base_id (path file) = Some m"
    and "forceReload \<or> content_hash m \<noteq> h"
    and "deleteLoader E (unique_id_embedjs m)"
    and "addFileLoader E file forceReload = Some result"
    and "valid_result result"
  shows "file_task_ms E base_id file forceReload w =
     (w\<lparr>store := addOrUpdateMetadata
                    (deleteMetadataByEmbedjsUniqueId (store w) base_id (unique_id_embedjs m))
                    (new_metadata base_id file h result),
        trace := trace w @
          [DeleteLoader (unique_id_embedjs m),
           DeleteMetadataByEmbedjsUniqueId base_id (unique_id_embedjs m),
           AddFileLoader (path file) forceReload,
           AddOrUpdateMetadata (new_metadata base_id file h result)],
        loaderDoneReturn := Some result\<rparr>,
      Inr result)"
proof -
  show ?thesis
    using assms(1,2,3,5,6) delete_existing_ok[OF assms(3,4), of base_id w]
    by (cases forceReload) (simp_all add: file_task_ms_def catch_def andThen_def await_calculateFileHash_def Let_def
        await_addFileLoader_def await_addOrUpdateMetadata_def)
qed

lemma directory_file_task_ms_update:
  assumes "calculateFileHash E (path file) = Some h"
    and "getMetadataByPath (store w) base_id (path file) = Some m"
    and "forceReload \<or> content_hash m \<noteq> h"
    and "deleteLoader E (unique_id_embedjs m)"
    and "addFileLoader E file forceReload = Some result"
    and "valid_result result"
  shows "directory_file_task_ms E base_id file forceReload w =
     (w\<lparr>store := addOrUpdateMetadata
                    (deleteMetadataByEmbedjsUniqueId (store w) base_id (unique_id_embedjs m))
                    (new_metadata base_id file h result),
        trace := trace w @
          [DeleteLoader (unique_id_embedjs m),
           DeleteMetadataByEmbedjsUniqueId base_id (unique_id_embedjs m),
           AddFileLoader (path file) forceReload,
           AddOrUpdateMetadata (new_metadata base_id file h result)],
        loaderDoneReturn := (loaderDoneReturn w)
           \<lparr>entriesAdded := entriesAdded (loaderDoneReturn w) + (if entriesAdded result > 0 then 1 else 0),
            uniqueIds := uniqueIds (loaderDoneReturn w) @ [uniqueId result]\<rparr>\<rparr>,
      Inr result)"
proof -
  show ?thesis
    using assms(1,2,3,5,6) delete_existing_ok[OF assms(3,4), of base_id w]
    by (cases forceReload) (simp_all add: directory_file_task_ms_def catch_def andThen_def await_calculateFileHash_def Let_def
        await_addFileLoader_def await_addOrUpdateMetadata_def)
qed

lemma file_task_ms_delete_first:
  assumes "calculateFileHash E (path file) = Some h"
    and "getMetadataByPath (store w) base_id (path file) = Some m"
    and "forceReload \<or> content_hash m \<noteq> h"
  shows "\<exists>evs. trace (fst (file_task_ms E base_id file forceReload w)) =
            trace w @ DeleteLoader (unique_id_embedjs m) # evs"
proof -
  show ?thesis
  proof (cases "deleteLoader E (unique_id_embedjs m)")
    case False
    show ?thesis
      using assms(1,2,3) delete_existing_fails[OF assms(3) False, of base_id w]
      by (cases forceReload)
         (simp_all add: file_task_ms_def catch_def andThen_def await_calculateFileHash_def Let_def)
  next
    case True
    show ?thesis
      using assms(1,2,3) delete_existing_ok[OF assms(3) True, of base_id w]
      by (cases forceReload)
         (auto simp add: file_task_ms_def catch_def andThen_def await_calculateFileHash_def Let_def
        await_addFileLoader_def await_addOrUpdateMetadata_def resolve_def split: option.splits)
  qed
qed

lemma file_task_ms_delete_fails:
  assumes "calculateFileHash E (path file) = Some h"
    and "getMetadataByPath (store w) base_id (path file) = Some m"
    and "forceReload \<or> content_hash m \<noteq> h"
    and "\<not> deleteLoader E (unique_id_embedjs m)"
  shows "file_task_ms E base_id file forceReload w =
           (w\<lparr>trace := trace w @ [DeleteLoader (unique_id_embedjs m)],
              loaderDoneReturn := Some ERROR_LOADER_RETURN\<rparr>, Inr ERROR_LOADER_RETURN)"
proof -
  show ?thesis
      using assms(1,2,3) delete_existing_fails[OF assms(3,4), of base_id w]
      by (cases forceReload)
         (simp_all add: file_task_ms_def catch_def andThen_def await_calculateFileHash_def Let_def)
qed

lemmas sample_defs = sample_env_def file_a_def file_b_def file_c_def row_a_def row_b_def doc_a_def doc_b_def
lemmas step_defs = andThen_def catch_def resolve_def await_calculateFileHash_def call_statSync_mtimeMs_def
  await_deleteLoader_def await_addFileLoader_def await_insertFileMetadata_def await_updateFileMetadata_def
  await_deleteFileMetadata_def await_deleteDirectoryMetadata_def await_addOrUpdateMetadata_def
  await_deleteMetadata_def await_deleteMetadataByEmbedjsUniqueId_def

lemma refresh_file_task_trace:
  "\<exists>evs. trace (fst (refresh_file_task E file u)) = trace u @ AddFileLoader (path file) True # evs \<and>
         (\<forall>x. DeleteLoader x \<notin> set evs)"
  by (auto simp add: refresh_file_task_def step_defs split: option.splits sum.splits)

lemma file_task_inc_trace:
  "trace (fst (file_task_inc E file forceReload x)) = trace x @ [AddFileLoader (path file) forceReload]"
  by (auto simp add: file_task_inc_def step_defs split: option.splits sum.splits)

lemma directoryTask_inc_force:
  "directoryTask_inc E directoryPath files True incrementalUpdate =
     (clear_metadata_task directoryPath, nat MB) #
     map (\<lambda>f. (refresh_file_task E f, file_size f)) files"
  by (simp add: directoryTask_inc_def)

lemma directory_file_task_ms_delete_first:
  assumes "calculateFileHash E (path file) = Some h"
    and "getMetadataByPath (store w) base_id (path file) = Some m"
    and "forceReload \<or> content_hash m \<noteq> h"
  shows "\<exists>evs. trace (fst (directory_file_task_ms E base_id file forceReload w)) =
            trace w @ DeleteLoader (unique_id_embedjs m) # evs"
proof (cases "deleteLoader E (unique_id_embedjs m)")
  case False
  show ?thesis
    using assms delete_existing_fails[OF assms(3) False, of base_id w]
    by (cases forceReload)
       (simp_all add: directory_file_task_ms_def catch_def andThen_def await_calculateFileHash_def
          Let_def resolve_def)
next
  case True
  show ?thesis
    using assms delete_existing_ok[OF assms(3) True, of base_id w]
    by (cases forceReload)
       (auto simp add: directory_file_task_ms_def catch_def andThen_def await_calculateFileHash_def
          Let_def await_addFileLoader_def await_addOrUpdateMetadata_def resolve_def
          split: option.splits)
qed

lemma directory_file_task_ms_delete_fails:
  assumes "calculateFileHash E (path file) = Some h"
    and "getMetadataByPath (store w) base_id (path file) = Some m"
    and "forceReload \<or> content_hash m \<noteq> h"
    and "\<not> deleteLoader E (unique_id_embedjs m)"
  shows "directory_file_task_ms E base_id file forceReload w =
           (w\<lparr>trace := trace w @ [DeleteLoader (unique_id_embedjs m)]\<rparr>, Inr ERROR_LOADER_RETURN)"
  using assms(1,2,3) delete_existing_fails[OF assms(3,4), of base_id w]
  by (cases forceReload)
     (simp_all add: directory_file_task_ms_def catch_def andThen_def await_calculateFileHash_def
        Let_def resolve_def)





subsection \<open>Records under a directory\<close>







subsection \<open>What the pass over one file leaves alone\<close>








subsection \<open>No scan removes the record of a current file\<close>






lemma deletion_check_loop_keeps:
  "q \<in> set (store w) \<Longrightarrow> file_path q \<in> set ps \<Longrightarrow>
   q \<in> set (store (fst (deletion_check_loop E base_id ps L w)))"
proof (induction L arbitrary: w)
  case Nil
  then show ?case by (simp add: resolve_def)
next
  case (Cons m L)
  show ?case
  proof (cases "file_path m \<in> set ps")
    case True
    with Cons show ?thesis by simp
  next
    case False
    show ?thesis
    proof (cases "deleteLoader E (unique_id_embedjs m)")
      case dl: False
      with False Cons.prems show ?thesis
        by (simp add: andThen_def await_deleteLoader_def)
    next
      case dl: True
      define w1 where "w1 = w\<lparr>store := deleteMetadata (store w) base_id (file_path m),
        trace := trace w @ [DeleteLoader (unique_id_embedjs m), DeleteMetadata base_id (file_path m)]\<rparr>"
      have step: "deletion_check_loop E base_id ps (m # L) w = deletion_check_loop E base_id ps L w1"
        using False dl
        by (simp add: andThen_def await_deleteLoader_def await_deleteMetadata_def w1_def)
      have "q \<in> set (store w1)" using Cons.prems False
        by (auto simp: w1_def deleteMetadata_def)
      from Cons.IH[OF this Cons.prems(2)] show ?thesis unfolding step .
    qed
  qed
qed

lemma deletion_check_task_keeps:
  assumes "q \<in> set (store w)" "file_path q \<in> set ps"
  shows "q \<in> set (store (fst (deletion_check_task E sep base_id directory ps uuid w)))"
proof -
  let ?L = "getMetadataByDirectoryPath sep (store w) base_id directory"
  obtain w1 r1 where s: "deletion_check_loop E base_id ps ?L w = (w1, r1)"
    by (cases "deletion_check_loop E base_id ps ?L w")
  from deletion_check_loop_keeps[OF assms, of E base_id ?L] s have "q \<in> set (store w1)" by simp
  with s show ?thesis
    by (cases r1) (simp_all add: deletion_check_task_def catch_def andThen_def resolve_def)
qed




subsection \<open>The pass over a changed file that succeeds\<close>







subsection \<open>Idempotence\<close>




text \<open>
  A whole directory: when every current file is unchanged against the records loaded at the
  start and every loaded record belongs to a current file, the master task of the
  incremental update makes no call and no write, and reports no entry added.
\<close>

lemma incremental_master_all_unchanged:
  assumes "\<forall>f \<in> set files. \<exists>m.
             metadata_map (getDirectoryMetadata (store w) directoryPath) (path f) = Some m \<and>
             calculateFileHash E (path f) = Some (hash m) \<and>
             statSync_mtimeMs E (path f) = Some (lastModified m)"
    and "\<forall>m \<in> set (getDirectoryMetadata (store w) directoryPath). filePath m \<in> set (map path files)"
  shows "incremental_master E directoryPath files w =
     (w\<lparr>loaderDoneReturn := (loaderDoneReturn w)\<lparr>entriesAdded := 0, uniqueIds := map path files\<rparr>\<rparr>,
      Inr \<lparr>entriesAdded = 0, uniqueId = uniqueId (loaderDoneReturn w),
           uniqueIds = map path files, loaderType = ''DirectoryIncrementalScanPart''\<rparr>)"
proof -
  let ?L = "getDirectoryMetadata (store w) directoryPath"
  have "\<forall>f \<in> set files. \<exists>m. metadata_map ?L (path f) = Some m \<and> filePath m = path f \<and>
             calculateFileHash E (path f) = Some (hash m) \<and>
             statSync_mtimeMs E (path f) = Some (lastModified m)"
    using assms(1) metadata_map_Some by blast
  from incremental_files_all_unchanged[OF this, of "(0, [])" w]
    incremental_deleted_none[OF assms(2), of E w]
  show ?thesis
    by (simp add: incremental_master_def Let_def andThen_def)
qed

subsection \<open>Classification of a file with a record in a directory synchronisation\<close>





subsection \<open>Forced reload\<close>

text \<open>The cases of a file task of the metadata-store variant that are not covered above: the
  hash cannot be computed, or the file has no record.\<close>

lemma file_task_ms_hash_fails:
  assumes "calculateFileHash E (path file) = None"
  shows "file_task_ms E base_id file forceReload w =
           (w\<lparr>loaderDoneReturn := Some ERROR_LOADER_RETURN\<rparr>, Inr ERROR_LOADER_RETURN)"
  using assms
  by (simp add: file_task_ms_def catch_def andThen_def await_calculateFileHash_def)

lemma directory_file_task_ms_hash_fails:
  assumes "calculateFileHash E (path file) = None"
  shows "directory_file_task_ms E base_id file forceReload w = (w, Inr ERROR_LOADER_RETURN)"
  using assms
  by (simp add: directory_file_task_ms_def catch_def andThen_def await_calculateFileHash_def
      resolve_def)

lemma file_task_ms_new_trace:
  assumes "calculateFileHash E (path file) = Some h"
    and "getMetadataByPath (store w) base_id (path file) = None"
  shows "\<exists>evs. trace (fst (file_task_ms E base_id file forceReload w)) =
            trace w @ AddFileLoader (path file) forceReload # evs \<and>
          (\<forall>x. DeleteLoader x \<notin> set evs)"
  using assms
  by (auto simp add: file_task_ms_def delete_existing_def catch_def andThen_def resolve_def
      await_calculateFileHash_def await_addFileLoader_def await_addOrUpdateMetadata_def Let_def
      split: option.splits)

lemma directory_file_task_ms_new_trace:
  assumes "calculateFileHash E (path file) = Some h"
    and "getMetadataByPath (store w) base_id (path file) = None"
  shows "\<exists>evs. trace (fst (directory_file_task_ms E base_id file forceReload w)) =
            trace w @ AddFileLoader (path file) forceReload # evs \<and>
          (\<forall>x. DeleteLoader x \<notin> set evs)"
  using assms
  by (auto simp add: directory_file_task_ms_def delete_existing_def catch_def andThen_def
      resolve_def await_calculateFileHash_def await_addFileLoader_def
      await_addOrUpdateMetadata_def Let_def
      split: option.splits)

lemma file_task_ms_new:
  assumes "calculateFileHash E (path file) = Some h"
    and "getMetadataByPath (store w) base_id (path file) = None"
    and "addFileLoader E file forceReload = Some result"
    and "valid_result result"
  shows "file_task_ms E base_id file forceReload w =
     (w\<lparr>store := addOrUpdateMetadata (store w) (new_metadata base_id file h result),
        trace := trace w @
          [AddFileLoader (path file) forceReload,
           AddOrUpdateMetadata (new_metadata base_id file h result)],
        loaderDoneReturn := Some result\<rparr>,
      Inr result)"
  using assms
  by (simp add: file_task_ms_def delete_existing_def catch_def andThen_def resolve_def
      await_calculateFileHash_def await_addFileLoader_def await_addOrUpdateMetadata_def Let_def)

lemma directory_file_task_ms_new:
  assumes "calculateFileHash E (path file) = Some h"
    and "getMetadataByPath (store w) base_id (path file) = None"
    and "addFileLoader E file forceReload = Some result"
    and "valid_result result"
  shows "directory_file_task_ms E base_id file forceReload w =
     (w\<lparr>store := addOrUpdateMetadata (store w) (new_metadata base_id file h result),
        trace := trace w @
          [AddFileLoader (path file) forceReload,
           AddOrUpdateMetadata (new_metadata base_id file h result)],
        loaderDoneReturn := (loaderDoneReturn w)
           \<lparr>entriesAdded := entriesAdded (loaderDoneReturn w) +
                (if entriesAdded result > 0 then 1 else 0),
            uniqueIds := uniqueIds (loaderDoneReturn w) @ [uniqueId result]\<rparr>\<rparr>,
      Inr result)"
  using assms
  by (simp add: directory_file_task_ms_def delete_existing_def catch_def andThen_def resolve_def
      await_calculateFileHash_def await_addFileLoader_def await_addOrUpdateMetadata_def Let_def)

lemma file_task_ms_force_trace:
  assumes "calculateFileHash E (path file) = Some h"
    and "getMetadataByPath (store w) base_id (path file) = Some m"
    and "deleteLoader E (unique_id_embedjs m)"
  shows "\<exists>evs. trace (fst (file_task_ms E base_id file True w)) =
            trace w @
              [DeleteLoader (unique_id_embedjs m),
               DeleteMetadataByEmbedjsUniqueId base_id (unique_id_embedjs m),
               AddFileLoader (path file) True] @ evs \<and>
          (\<forall>x. DeleteLoader x \<notin> set evs)"
proof -
  have f: "True \<or> content_hash m \<noteq> h" by simp
  show ?thesis
    using assms(1,2) delete_existing_ok[OF f assms(3), of base_id w]
    by (auto simp add: file_task_ms_def catch_def andThen_def resolve_def
        await_calculateFileHash_def await_addFileLoader_def await_addOrUpdateMetadata_def Let_def
        split: option.splits)
qed

lemma directory_file_task_ms_force_trace:
  assumes "calculateFileHash E (path file) = Some h"
    and "getMetadataByPath (store w) base_id (path file) = Some m"
    and "deleteLoader E (unique_id_embedjs m)"
  shows "\<exists>evs. trace (fst (directory_file_task_ms E base_id file True w)) =
            trace w @
              [DeleteLoader (unique_id_embedjs m),
               DeleteMetadataByEmbedjsUniqueId base_id (unique_id_embedjs m),
               AddFileLoader (path file) True] @ evs \<and>
          (\<forall>x. DeleteLoader x \<notin> set evs)"
proof -
  have f: "True \<or> content_hash m \<noteq> h" by simp
  show ?thesis
    using assms(1,2) delete_existing_ok[OF f assms(3), of base_id w]
    by (auto simp add: directory_file_task_ms_def catch_def andThen_def resolve_def
        await_calculateFileHash_def await_addFileLoader_def await_addOrUpdateMetadata_def Let_def
        split: option.splits)
qed

text \<open>
  C5 (as amended). With \<^verbatim>\<open>forceReload = true\<close> no file is skipped because its hash
  matches its record; every call of \<^verbatim>\<open>addFileLoader\<close> named below is made with
  \<^verbatim>\<open>forceReload = true\<close>.
  \<^item> In the metadata-store variant the file task and the per-file directory task make no
    call when the hash of the file cannot be computed. For a file without a record the
    first call is \<^verbatim>\<open>addFileLoader\<close>, \<^verbatim>\<open>deleteLoader\<close> is not called, and the record is
    written when the loader's result is valid. For a file with a record the first call is
    \<^verbatim>\<open>deleteLoader\<close> on the stored id: when it fails nothing else is called and the item
    ends with \<^verbatim>\<open>ERROR_LOADER_RETURN\<close>; when it succeeds the record is deleted and
    \<^verbatim>\<open>addFileLoader\<close> is called, and the new record is written when the loader's result
    is valid.
  \<^item> In the incrementalUpdate variant a directory task consists of the metadata-clearing
    item, which deletes the rows of the directory and calls nothing else, and one item per
    file; the item of a file starts with the call of \<^verbatim>\<open>addFileLoader\<close> and never calls
    \<^verbatim>\<open>deleteLoader\<close>; the file task makes the one call of \<^verbatim>\<open>addFileLoader\<close>.
\<close>

theorem force_reload_amended:
  shows
    "(calculateFileHash E (path file) = None \<longrightarrow>
        file_task_ms E base_id file True w =
          (w\<lparr>loaderDoneReturn := Some ERROR_LOADER_RETURN\<rparr>, Inr ERROR_LOADER_RETURN) \<and>
        directory_file_task_ms E base_id file True v = (v, Inr ERROR_LOADER_RETURN)) \<and>
     (calculateFileHash E (path file) = Some h \<and> getMetadataByPath (store w) base_id (path file) = None \<longrightarrow>
        (\<exists>evs. trace (fst (file_task_ms E base_id file True w)) =
                 trace w @ AddFileLoader (path file) True # evs \<and>
               (\<forall>x. DeleteLoader x \<notin> set evs))) \<and>
     (calculateFileHash E (path file) = Some h \<and> getMetadataByPath (store w) base_id (path file) = None \<and>
      addFileLoader E file True = Some result \<and> valid_result result \<longrightarrow>
        file_task_ms E base_id file True w =
          (w\<lparr>store := addOrUpdateMetadata (store w) (new_metadata base_id file h result),
             trace := trace w @
               [AddFileLoader (path file) True,
                AddOrUpdateMetadata (new_metadata base_id file h result)],
             loaderDoneReturn := Some result\<rparr>,
           Inr result)) \<and>
     (calculateFileHash E (path file) = Some h \<and> getMetadataByPath (store w) base_id (path file) = Some m \<and>
      \<not> deleteLoader E (unique_id_embedjs m) \<longrightarrow>
        file_task_ms E base_id file True w =
          (w\<lparr>trace := trace w @ [DeleteLoader (unique_id_embedjs m)],
             loaderDoneReturn := Some ERROR_LOADER_RETURN\<rparr>, Inr ERROR_LOADER_RETURN)) \<and>
     (calculateFileHash E (path file) = Some h \<and> getMetadataByPath (store w) base_id (path file) = Some m \<and>
      deleteLoader E (unique_id_embedjs m) \<longrightarrow>
        (\<exists>evs. trace (fst (file_task_ms E base_id file True w)) =
                 trace w @
                   [DeleteLoader (unique_id_embedjs m),
                    DeleteMetadataByEmbedjsUniqueId base_id (unique_id_embedjs m),
                    AddFileLoader (path file) True] @ evs \<and>
               (\<forall>x. DeleteLoader x \<notin> set evs))) \<and>
     (calculateFileHash E (path file) = Some h \<and> getMetadataByPath (store w) base_id (path file) = Some m \<and>
      deleteLoader E (unique_id_embedjs m) \<and>
      addFileLoader E file True = Some result \<and> valid_result result \<longrightarrow>
        file_task_ms E base_id file True w =
          (w\<lparr>store := addOrUpdateMetadata
                         (deleteMetadataByEmbedjsUniqueId (store w) base_id (unique_id_embedjs m))
                         (new_metadata base_id file h result),
             trace := trace w @
               [DeleteLoader (unique_id_embedjs m),
                DeleteMetadataByEmbedjsUniqueId base_id (unique_id_embedjs m),
                AddFileLoader (path file) True,
                AddOrUpdateMetadata (new_metadata base_id file h result)],
             loaderDoneReturn := Some result\<rparr>,
           Inr result)) \<and>
     (calculateFileHash E (path file) = Some h \<and> getMetadataByPath (store v) base_id (path file) = None \<longrightarrow>
        (\<exists>evs. trace (fst (directory_file_task_ms E base_id file True v)) =
                 trace v @ AddFileLoader (path file) True # evs \<and>
               (\<forall>x. DeleteLoader x \<notin> set evs))) \<and>
     (calculateFileHash E (path file) = Some h \<and> getMetadataByPath (store v) base_id (path file) = None \<and>
      addFileLoader E file True = Some result \<and> valid_result result \<longrightarrow>
        directory_file_task_ms E base_id file True v =
          (v\<lparr>store := addOrUpdateMetadata (store v) (new_metadata base_id file h result),
             trace := trace v @
               [AddFileLoader (path file) True,
                AddOrUpdateMetadata (new_metadata base_id file h result)],
             loaderDoneReturn := (loaderDoneReturn v)
               \<lparr>entriesAdded := entriesAdded (loaderDoneReturn v) +
                    (if entriesAdded result > 0 then 1 else 0),
                uniqueIds := uniqueIds (loaderDoneReturn v) @ [uniqueId result]\<rparr>\<rparr>,
           Inr result)) \<and>
     (calculateFileHash E (path file) = Some h \<and> getMetadataByPath (store v) base_id (path file) = Some m \<and>
      \<not> deleteLoader E (unique_id_embedjs m) \<longrightarrow>
        directory_file_task_ms E base_id file True v =
          (v\<lparr>trace := trace v @ [DeleteLoader (unique_id_embedjs m)]\<rparr>, Inr ERROR_LOADER_RETURN)) \<and>
     (calculateFileHash E (path file) = Some h \<and> getMetadataByPath (store v) base_id (path file) = Some m \<and>
      deleteLoader E (unique_id_embedjs m) \<longrightarrow>
        (\<exists>evs. trace (fst (directory_file_task_ms E base_id file True v)) =
                 trace v @
                   [DeleteLoader (unique_id_embedjs m),
                    DeleteMetadataByEmbedjsUniqueId base_id (unique_id_embedjs m),
                    AddFileLoader (path file) True] @ evs \<and>
               (\<forall>x. DeleteLoader x \<notin> set evs))) \<and>
     (calculateFileHash E (path file) = Some h \<and> getMetadataByPath (store v) base_id (path file) = Some m \<and>
      deleteLoader E (unique_id_embedjs m) \<and>
      addFileLoader E file True = Some result \<and> valid_result result \<longrightarrow>
        directory_file_task_ms E base_id file True v =
          (v\<lparr>store := addOrUpdateMetadata
                         (deleteMetadataByEmbedjsUniqueId (store v) base_id (unique_id_embedjs m))
                         (new_metadata base_id file h result),
             trace := trace v @
               [DeleteLoader (unique_id_embedjs m),
                DeleteMetadataByEmbedjsUniqueId base_id (unique_id_embedjs m),
                AddFileLoader (path file) True,
                AddOrUpdateMetadata (new_metadata base_id file h result)],
             loaderDoneReturn := (loaderDoneReturn v)
               \<lparr>entriesAdded := entriesAdded (loaderDoneReturn v) +
                    (if entriesAdded result > 0 then 1 else 0),
                uniqueIds := uniqueIds (loaderDoneReturn v) @ [uniqueId result]\<rparr>\<rparr>,
           Inr result)) \<and>
     (directoryTask_inc E directoryPath files True incrementalUpdate =
       (clear_metadata_task directoryPath, nat MB) #
       map (\<lambda>f. (refresh_file_task E f, file_size f)) files) \<and>
     (clear_metadata_task directoryPath u =
       (u\<lparr>store := deleteDirectoryMetadata (store u) directoryPath,
          trace := trace u @ [DeleteDirectoryMetadata directoryPath]\<rparr>,
        Inr \<lparr>entriesAdded = 0, uniqueId = ''deleteMetaTask'', uniqueIds = [],
             loaderType = ''PreTask''\<rparr>)) \<and>
     (\<exists>evs. trace (fst (refresh_file_task E file u)) =
              trace u @ AddFileLoader (path file) True # evs \<and>
            (\<forall>x. DeleteLoader x \<notin> set evs)) \<and>
     (trace (fst (file_task_inc E file True (x :: (FileMetadata, LoaderReturn option) world))) =
       trace x @ [AddFileLoader (path file) True])"
proof (intro conjI)
  show "calculateFileHash E (path file) = None \<longrightarrow>
        file_task_ms E base_id file True w =
          (w\<lparr>loaderDoneReturn := Some ERROR_LOADER_RETURN\<rparr>, Inr ERROR_LOADER_RETURN) \<and>
        directory_file_task_ms E base_id file True v = (v, Inr ERROR_LOADER_RETURN)"
    using file_task_ms_hash_fails directory_file_task_ms_hash_fails by blast
  show "calculateFileHash E (path file) = Some h \<and> getMetadataByPath (store w) base_id (path file) = None \<longrightarrow>
        (\<exists>evs. trace (fst (file_task_ms E base_id file True w)) =
                 trace w @ AddFileLoader (path file) True # evs \<and>
               (\<forall>x. DeleteLoader x \<notin> set evs))"
    using file_task_ms_new_trace[of E "file" h w base_id True] by blast
  show "calculateFileHash E (path file) = Some h \<and> getMetadataByPath (store w) base_id (path file) = None \<and>
      addFileLoader E file True = Some result \<and> valid_result result \<longrightarrow>
        file_task_ms E base_id file True w =
          (w\<lparr>store := addOrUpdateMetadata (store w) (new_metadata base_id file h result),
             trace := trace w @
               [AddFileLoader (path file) True,
                AddOrUpdateMetadata (new_metadata base_id file h result)],
             loaderDoneReturn := Some result\<rparr>,
           Inr result)"
    using file_task_ms_new[of E "file" h w base_id True result] by blast
  show "calculateFileHash E (path file) = Some h \<and> getMetadataByPath (store w) base_id (path file) = Some m \<and>
      \<not> deleteLoader E (unique_id_embedjs m) \<longrightarrow>
        file_task_ms E base_id file True w =
          (w\<lparr>trace := trace w @ [DeleteLoader (unique_id_embedjs m)],
             loaderDoneReturn := Some ERROR_LOADER_RETURN\<rparr>, Inr ERROR_LOADER_RETURN)"
    using file_task_ms_delete_fails[of E "file" h w base_id m True] by blast
  show "calculateFileHash E (path file) = Some h \<and> getMetadataByPath (store w) base_id (path file) = Some m \<and>
      deleteLoader E (unique_id_embedjs m) \<longrightarrow>
        (\<exists>evs. trace (fst (file_task_ms E base_id file True w)) =
                 trace w @
                   [DeleteLoader (unique_id_embedjs m),
                    DeleteMetadataByEmbedjsUniqueId base_id (unique_id_embedjs m),
                    AddFileLoader (path file) True] @ evs \<and>
               (\<forall>x. DeleteLoader x \<notin> set evs))"
    using file_task_ms_force_trace[of E "file" h w base_id m] by blast
  show "calculateFileHash E (path file) = Some h \<and> getMetadataByPath (store w) base_id (path file) = Some m \<and>
      deleteLoader E (unique_id_embedjs m) \<and>
      addFileLoader E file True = Some result \<and> valid_result result \<longrightarrow>
        file_task_ms E base_id file True w =
          (w\<lparr>store := addOrUpdateMetadata
                         (deleteMetadataByEmbedjsUniqueId (store w) base_id (unique_id_embedjs m))
                         (new_metadata base_id file h result),
             trace := trace w @
               [DeleteLoader (unique_id_embedjs m),
                DeleteMetadataByEmbedjsUniqueId base_id (unique_id_embedjs m),
                AddFileLoader (path file) True,
                AddOrUpdateMetadata (new_metadata base_id file h result)],
             loaderDoneReturn := Some result\<rparr>,
           Inr result)"
    using file_task_ms_update[of E "file" h w base_id m True result] by blast
  show "calculateFileHash E (path file) = Some h \<and> getMetadataByPath (store v) base_id (path file) = None \<longrightarrow>
        (\<exists>evs. trace (fst (directory_file_task_ms E base_id file True v)) =
                 trace v @ AddFileLoader (path file) True # evs \<and>
               (\<forall>x. DeleteLoader x \<notin> set evs))"
    using directory_file_task_ms_new_trace[of E "file" h v base_id True] by blast
  show "calculateFileHash E (path file) = Some h \<and> getMetadataByPath (store v) base_id (path file) = None \<and>
      addFileLoader E file True = Some result \<and> valid_result result \<longrightarrow>
        directory_file_task_ms E base_id file True v =
          (v\<lparr>store := addOrUpdateMetadata (store v) (new_metadata base_id file h result),
             trace := trace v @
               [AddFileLoader (path file) True,
                AddOrUpdateMetadata (new_metadata base_id file h result)],
             loaderDoneReturn := (loaderDoneReturn v)
               \<lparr>entriesAdded := entriesAdded (loaderDoneReturn v) +
                    (if entriesAdded result > 0 then 1 else 0),
                uniqueIds := uniqueIds (loaderDoneReturn v) @ [uniqueId result]\<rparr>\<rparr>,
           Inr result)"
    using directory_file_task_ms_new[of E "file" h v base_id True result] by blast
  show "calculateFileHash E (path file) = Some h \<and> getMetadataByPath (store v) base_id (path file) = Some m \<and>
      \<not> deleteLoader E (unique_id_embedjs m) \<longrightarrow>
        directory_file_task_ms E base_id file True v =
          (v\<lparr>trace := trace v @ [DeleteLoader (unique_id_embedjs m)]\<rparr>, Inr ERROR_LOADER_RETURN)"
    using directory_file_task_ms_delete_fails[of E "file" h v base_id m True] by blast
  show "calculateFileHash E (path file) = Some h \<and> getMetadataByPath (store v) base_id (path file) = Some m \<and>
      deleteLoader E (unique_id_embedjs m) \<longrightarrow>
        (\<exists>evs. trace (fst (directory_file_task_ms E base_id file True v)) =
                 trace v @
                   [DeleteLoader (unique_id_embedjs m),
                    DeleteMetadataByEmbedjsUniqueId base_id (unique_id_embedjs m),
                    AddFileLoader (path file) True] @ evs \<and>
               (\<forall>x. DeleteLoader x \<notin> set evs))"
    using directory_file_task_ms_force_trace[of E "file" h v base_id m] by blast
  show "calculateFileHash E (path file) = Some h \<and> getMetadataByPath (store v) base_id (path file) = Some m \<and>
      deleteLoader E (unique_id_embedjs m) \<and>
      addFileLoader E file True = Some result \<and> valid_result result \<longrightarrow>
        directory_file_task_ms E base_id file True v =
          (v\<lparr>store := addOrUpdateMetadata
                         (deleteMetadataByEmbedjsUniqueId (store v) base_id (unique_id_embedjs m))
                         (new_metadata base_id file h result),
             trace := trace v @
               [DeleteLoader (unique_id_embedjs m),
                DeleteMetadataByEmbedjsUniqueId base_id (unique_id_embedjs m),
                AddFileLoader (path file) True,
                AddOrUpdateMetadata (new_metadata base_id file h result)],
             loaderDoneReturn := (loaderDoneReturn v)
               \<lparr>entriesAdded := entriesAdded (loaderDoneReturn v) +
                    (if entriesAdded result > 0 then 1 else 0),
                uniqueIds := uniqueIds (loaderDoneReturn v) @ [uniqueId result]\<rparr>\<rparr>,
           Inr result)"
    using directory_file_task_ms_update[of E "file" h v base_id m True result] by blast
  show "directoryTask_inc E directoryPath files True incrementalUpdate =
       (clear_metadata_task directoryPath, nat MB) #
       map (\<lambda>f. (refresh_file_task E f, file_size f)) files"
    by (rule directoryTask_inc_force)
  show "clear_metadata_task directoryPath u =
       (u\<lparr>store := deleteDirectoryMetadata (store u) directoryPath,
          trace := trace u @ [DeleteDirectoryMetadata directoryPath]\<rparr>,
        Inr \<lparr>entriesAdded = 0, uniqueId = ''deleteMetaTask'', uniqueIds = [],
             loaderType = ''PreTask''\<rparr>)"
    by (simp add: clear_metadata_task_def andThen_def resolve_def
        await_deleteDirectoryMetadata_def)
  show "\<exists>evs. trace (fst (refresh_file_task E file u)) =
              trace u @ AddFileLoader (path file) True # evs \<and>
            (\<forall>x. DeleteLoader x \<notin> set evs)"
    by (rule refresh_file_task_trace)
  show "trace (fst (file_task_inc E file True (x :: (FileMetadata, LoaderReturn option) world))) =
       trace x @ [AddFileLoader (path file) True]"
    by (rule file_task_inc_trace)
qed

text \<open>C5, the amended statement at \<^verbatim>\<open>/d/a.txt\<close>, whose hash matches its row, at the
  same file without a row, and at the unreadable \<^verbatim>\<open>/d/c.txt\<close>.\<close>

theorem force_reload_amended_witness:
  "calculateFileHash sample_env (path file_a) = Some (content_hash doc_a) \<and>
   getMetadataByPath [doc_a] ''kb'' (path file_a) = Some doc_a \<and>
   deleteLoader sample_env (unique_id_embedjs doc_a) \<and>
   file_task_ms sample_env ''kb'' file_a True
       \<lparr>store = [doc_a], trace = [], loaderDoneReturn = None\<rparr> =
     (\<lparr>store = [doc_a\<lparr>unique_id_embedjs := ''new:/d/a.txt''\<rparr>],
       trace = [DeleteLoader ''old:a'', DeleteMetadataByEmbedjsUniqueId ''kb'' ''old:a'',
                AddFileLoader ''/d/a.txt'' True,
                AddOrUpdateMetadata (doc_a\<lparr>unique_id_embedjs := ''new:/d/a.txt''\<rparr>)],
       loaderDoneReturn = Some \<lparr>entriesAdded = 1, uniqueId = ''new:/d/a.txt'',
          uniqueIds = [''new:/d/a.txt''], loaderType = ''LocalPathLoader''\<rparr>\<rparr>,
      Inr \<lparr>entriesAdded = 1, uniqueId = ''new:/d/a.txt'',
          uniqueIds = [''new:/d/a.txt''], loaderType = ''LocalPathLoader''\<rparr>) \<and>
   getMetadataByPath [] ''kb'' (path file_a) = None \<and>
   file_task_ms sample_env ''kb'' file_a True
       \<lparr>store = [], trace = [], loaderDoneReturn = None\<rparr> =
     (\<lparr>store = [doc_a\<lparr>unique_id_embedjs := ''new:/d/a.txt''\<rparr>],
       trace = [AddFileLoader ''/d/a.txt'' True,
                AddOrUpdateMetadata (doc_a\<lparr>unique_id_embedjs := ''new:/d/a.txt''\<rparr>)],
       loaderDoneReturn = Some \<lparr>entriesAdded = 1, uniqueId = ''new:/d/a.txt'',
          uniqueIds = [''new:/d/a.txt''], loaderType = ''LocalPathLoader''\<rparr>\<rparr>,
      Inr \<lparr>entriesAdded = 1, uniqueId = ''new:/d/a.txt'',
          uniqueIds = [''new:/d/a.txt''], loaderType = ''LocalPathLoader''\<rparr>) \<and>
   calculateFileHash sample_env (path file_c) = None \<and>
   file_task_ms sample_env ''kb'' file_c True
       \<lparr>store = [doc_a], trace = [], loaderDoneReturn = None\<rparr> =
     (\<lparr>store = [doc_a], trace = [], loaderDoneReturn = Some ERROR_LOADER_RETURN\<rparr>,
      Inr ERROR_LOADER_RETURN)"
proof -
  have h: "calculateFileHash sample_env (path file_a) = Some ''h1''"
    and g: "getMetadataByPath (store \<lparr>store = [doc_a], trace = [], loaderDoneReturn = None\<rparr>)
              ''kb'' (path file_a) = Some doc_a"
    and n: "getMetadataByPath (store \<lparr>store = [], trace = [], loaderDoneReturn = None\<rparr>)
              ''kb'' (path file_a) = None"
    and c: "calculateFileHash sample_env (path file_c) = None"
    and d: "deleteLoader sample_env (unique_id_embedjs doc_a)"
    and r: "addFileLoader sample_env file_a True =
      Some \<lparr>entriesAdded = 1, uniqueId = ''new:/d/a.txt'',
          uniqueIds = [''new:/d/a.txt''], loaderType = ''LocalPathLoader''\<rparr>"
    and v: "valid_result \<lparr>entriesAdded = 1, uniqueId = ''new:/d/a.txt'',
          uniqueIds = [''new:/d/a.txt''], loaderType = ''LocalPathLoader''\<rparr>"
    by (simp_all add: getMetadataByPath_def valid_result_def sample_defs)
  from force_reload_amended[of sample_env file_a "''kb''"
        "\<lparr>store = [doc_a], trace = [], loaderDoneReturn = None\<rparr>" _ "''h1''"
        "\<lparr>entriesAdded = 1, uniqueId = ''new:/d/a.txt'',
          uniqueIds = [''new:/d/a.txt''], loaderType = ''LocalPathLoader''\<rparr>" doc_a]
    force_reload_amended[of sample_env file_a "''kb''"
        "\<lparr>store = [], trace = [], loaderDoneReturn = None\<rparr>" _ "''h1''"
        "\<lparr>entriesAdded = 1, uniqueId = ''new:/d/a.txt'',
          uniqueIds = [''new:/d/a.txt''], loaderType = ''LocalPathLoader''\<rparr>"]
    force_reload_amended[of sample_env file_c "''kb''"
        "\<lparr>store = [doc_a], trace = [], loaderDoneReturn = None\<rparr>"]
    h g n c d r v
  show ?thesis
    by (simp add: addOrUpdateMetadata_def deleteMetadataByEmbedjsUniqueId_def new_metadata_def
        doc_a_def file_a_def)
qed

text \<open>C5 as stated fails: the forced reload of the sample directory in the incrementalUpdate
  variant, with the row of the unchanged \<^verbatim>\<open>/d/a.txt\<close> in the table, clears the row and
  adds the file again, and \<^verbatim>\<open>deleteLoader\<close> is not called on the stored id
  \<^verbatim>\<open>old:a\<close>.\<close>

theorem force_reload_counterexample:
  "embedjs_unique_id row_a = ''old:a'' \<and>
   calculateFileHash sample_env (path file_a) = Some (hash row_a) \<and>
   trace (fst (run_items (directoryTask_inc sample_env ''/d'' [file_a] True True)
      \<lparr>store = [row_a], trace = [], loaderDoneReturn = directory_loaderDoneReturn ''u''\<rparr>)) =
     [DeleteDirectoryMetadata ''/d'', AddFileLoader ''/d/a.txt'' True,
      InsertFileMetadata \<lparr>filePath = ''/d/a.txt'', lastModified = 10, size_bytes = 50,
         hash = ''h1'', embedjs_unique_id = ''new:/d/a.txt''\<rparr>] \<and>
   DeleteLoader ''old:a'' \<notin> set (trace (fst (run_items
      (directoryTask_inc sample_env ''/d'' [file_a] True True)
      \<lparr>store = [row_a], trace = [], loaderDoneReturn = directory_loaderDoneReturn ''u''\<rparr>)))"
  by (simp add: directoryTask_inc_def clear_metadata_task_def refresh_file_task_def
      deleteDirectoryMetadata_def insertFileMetadata_def pathPrefix_def endsWith_def
      directory_loaderDoneReturn_def step_defs sample_defs)

subsection \<open>Deletion of the records of files that are gone\<close>






subsection \<open>The old artifact is deleted before the new record is written\<close>

text \<open>
  C7 (as amended). Where a file with a stored record is classified as changed by the
  incremental directory update, and where the file task or the per-file directory task of
  the metadata-store variant finds a record and the hash differs or the reload is forced,
  the first call made is \<^verbatim>\<open>deleteLoader\<close> on the stored id, so every write to the
  metadata table in that step comes after it; and when that \<^verbatim>\<open>deleteLoader\<close> fails,
  nothing else is called and the table is left as it was. (The full refresh of the
  incrementalUpdate variant calls no \<^verbatim>\<open>deleteLoader\<close>.)
\<close>

theorem delete_before_write_amended:
  assumes "calculateFileHash E (path file) = Some h"
  shows
    "(statSync_mtimeMs E (path file) = Some t \<and> M (path file) = Some fm \<and>
      (hash fm \<noteq> h \<or> lastModified fm \<noteq> t) \<longrightarrow>
        (\<exists>evs. trace (fst (incremental_file E M file acc u)) =
                 trace u @ DeleteLoader (embedjs_unique_id fm) # evs) \<and>
        (\<not> deleteLoader E (embedjs_unique_id fm) \<longrightarrow>
           incremental_file E M file acc u =
             (u\<lparr>trace := trace u @ [DeleteLoader (embedjs_unique_id fm)]\<rparr>, Inl LoaderError))) \<and>
     (getMetadataByPath (store w) base_id (path file) = Some m \<and>
      (forceReload \<or> content_hash m \<noteq> h) \<longrightarrow>
        (\<exists>evs. trace (fst (file_task_ms E base_id file forceReload w)) =
                 trace w @ DeleteLoader (unique_id_embedjs m) # evs) \<and>
        (\<not> deleteLoader E (unique_id_embedjs m) \<longrightarrow>
           file_task_ms E base_id file forceReload w =
             (w\<lparr>trace := trace w @ [DeleteLoader (unique_id_embedjs m)],
                loaderDoneReturn := Some ERROR_LOADER_RETURN\<rparr>, Inr ERROR_LOADER_RETURN))) \<and>
     (getMetadataByPath (store v) base_id (path file) = Some m \<and>
      (forceReload \<or> content_hash m \<noteq> h) \<longrightarrow>
        (\<exists>evs. trace (fst (directory_file_task_ms E base_id file forceReload v)) =
                 trace v @ DeleteLoader (unique_id_embedjs m) # evs) \<and>
        (\<not> deleteLoader E (unique_id_embedjs m) \<longrightarrow>
           directory_file_task_ms E base_id file forceReload v =
             (v\<lparr>trace := trace v @ [DeleteLoader (unique_id_embedjs m)]\<rparr>,
              Inr ERROR_LOADER_RETURN)))"
proof (intro conjI impI)
  assume a: "statSync_mtimeMs E (path file) = Some t \<and> M (path file) = Some fm \<and>
      (hash fm \<noteq> h \<or> lastModified fm \<noteq> t)"
  then show "\<exists>evs. trace (fst (incremental_file E M file acc u)) =
                 trace u @ DeleteLoader (embedjs_unique_id fm) # evs"
    using incremental_file_changed_trace[of E "file" h t M fm acc u] assms by simp
  assume "\<not> deleteLoader E (embedjs_unique_id fm)"
  with a show "incremental_file E M file acc u =
             (u\<lparr>trace := trace u @ [DeleteLoader (embedjs_unique_id fm)]\<rparr>, Inl LoaderError)"
    using incremental_file_changed_delete_fails[of E "file" h t M fm acc u] assms by simp
next
  assume a: "getMetadataByPath (store w) base_id (path file) = Some m \<and>
      (forceReload \<or> content_hash m \<noteq> h)"
  then show "\<exists>evs. trace (fst (file_task_ms E base_id file forceReload w)) =
                 trace w @ DeleteLoader (unique_id_embedjs m) # evs"
    using file_task_ms_delete_first[of E "file" h w base_id m forceReload] assms by simp
  assume "\<not> deleteLoader E (unique_id_embedjs m)"
  with a show "file_task_ms E base_id file forceReload w =
             (w\<lparr>trace := trace w @ [DeleteLoader (unique_id_embedjs m)],
                loaderDoneReturn := Some ERROR_LOADER_RETURN\<rparr>, Inr ERROR_LOADER_RETURN)"
    using file_task_ms_delete_fails[of E "file" h w base_id m forceReload] assms by simp
next
  assume a: "getMetadataByPath (store v) base_id (path file) = Some m \<and>
      (forceReload \<or> content_hash m \<noteq> h)"
  then show "\<exists>evs. trace (fst (directory_file_task_ms E base_id file forceReload v)) =
                 trace v @ DeleteLoader (unique_id_embedjs m) # evs"
    using directory_file_task_ms_delete_first[of E "file" h v base_id m forceReload] assms by simp
  assume "\<not> deleteLoader E (unique_id_embedjs m)"
  with a show "directory_file_task_ms E base_id file forceReload v =
             (v\<lparr>trace := trace v @ [DeleteLoader (unique_id_embedjs m)]\<rparr>,
              Inr ERROR_LOADER_RETURN)"
    using directory_file_task_ms_delete_fails[of E "file" h v base_id m forceReload] assms by simp
qed

text \<open>C7, the amended statement at \<^verbatim>\<open>/d/a.txt\<close> with an older hash in its rows and a
  backend whose \<^verbatim>\<open>deleteLoader\<close> fails: nothing is written.\<close>

theorem delete_before_write_amended_witness:
  "calculateFileHash (sample_env\<lparr>deleteLoader := (\<lambda>uid. False)\<rparr>) (path file_a) = Some ''h1'' \<and>
   statSync_mtimeMs (sample_env\<lparr>deleteLoader := (\<lambda>uid. False)\<rparr>) (path file_a) = Some 10 \<and>
   metadata_map [row_a\<lparr>hash := ''h0''\<rparr>] (path file_a) = Some (row_a\<lparr>hash := ''h0''\<rparr>) \<and>
   hash (row_a\<lparr>hash := ''h0''\<rparr>) \<noteq> ''h1'' \<and>
   getMetadataByPath [doc_a\<lparr>content_hash := ''h0''\<rparr>] ''kb'' (path file_a) =
     Some (doc_a\<lparr>content_hash := ''h0''\<rparr>) \<and>
   content_hash (doc_a\<lparr>content_hash := ''h0''\<rparr>) \<noteq> ''h1'' \<and>
   incremental_file (sample_env\<lparr>deleteLoader := (\<lambda>uid. False)\<rparr>)
       (metadata_map [row_a\<lparr>hash := ''h0''\<rparr>]) file_a (0, [])
       \<lparr>store = [row_a\<lparr>hash := ''h0''\<rparr>], trace = [],
        loaderDoneReturn = directory_loaderDoneReturn ''u''\<rparr> =
     (\<lparr>store = [row_a\<lparr>hash := ''h0''\<rparr>], trace = [DeleteLoader ''old:a''],
       loaderDoneReturn = directory_loaderDoneReturn ''u''\<rparr>, Inl LoaderError) \<and>
   file_task_ms (sample_env\<lparr>deleteLoader := (\<lambda>uid. False)\<rparr>) ''kb'' file_a False
       \<lparr>store = [doc_a\<lparr>content_hash := ''h0''\<rparr>], trace = [], loaderDoneReturn = None\<rparr> =
     (\<lparr>store = [doc_a\<lparr>content_hash := ''h0''\<rparr>], trace = [DeleteLoader ''old:a''],
       loaderDoneReturn = Some ERROR_LOADER_RETURN\<rparr>, Inr ERROR_LOADER_RETURN) \<and>
   directory_file_task_ms (sample_env\<lparr>deleteLoader := (\<lambda>uid. False)\<rparr>) ''kb'' file_a False
       \<lparr>store = [doc_a\<lparr>content_hash := ''h0''\<rparr>], trace = [],
        loaderDoneReturn = directory_loaderDoneReturn ''u''\<rparr> =
     (\<lparr>store = [doc_a\<lparr>content_hash := ''h0''\<rparr>], trace = [DeleteLoader ''old:a''],
       loaderDoneReturn = directory_loaderDoneReturn ''u''\<rparr>, Inr ERROR_LOADER_RETURN)"
proof -
  let ?E = "sample_env\<lparr>deleteLoader := (\<lambda>uid. False)\<rparr>"
  have h: "calculateFileHash ?E (path file_a) = Some ''h1''"
    and t: "statSync_mtimeMs ?E (path file_a) = Some 10"
    and m: "metadata_map [row_a\<lparr>hash := ''h0''\<rparr>] (path file_a) = Some (row_a\<lparr>hash := ''h0''\<rparr>)"
    and n: "hash (row_a\<lparr>hash := ''h0''\<rparr>) \<noteq> ''h1''"
    and g: "getMetadataByPath [doc_a\<lparr>content_hash := ''h0''\<rparr>] ''kb'' (path file_a) =
              Some (doc_a\<lparr>content_hash := ''h0''\<rparr>)"
    and c: "content_hash (doc_a\<lparr>content_hash := ''h0''\<rparr>) \<noteq> ''h1''"
    and d: "\<not> deleteLoader ?E (embedjs_unique_id (row_a\<lparr>hash := ''h0''\<rparr>))"
           "\<not> deleteLoader ?E (unique_id_embedjs (doc_a\<lparr>content_hash := ''h0''\<rparr>))"
    by (simp_all add: metadata_map_def getMetadataByPath_def sample_defs)
  from delete_before_write_amended[of ?E file_a "''h1''" 10 "metadata_map [row_a\<lparr>hash := ''h0''\<rparr>]"
      "row_a\<lparr>hash := ''h0''\<rparr>" "(0, [])"
      "\<lparr>store = [row_a\<lparr>hash := ''h0''\<rparr>], trace = [],
        loaderDoneReturn = directory_loaderDoneReturn ''u''\<rparr>"
      "\<lparr>store = [doc_a\<lparr>content_hash := ''h0''\<rparr>], trace = [], loaderDoneReturn = None\<rparr>"
      "''kb''" "doc_a\<lparr>content_hash := ''h0''\<rparr>" False
      "\<lparr>store = [doc_a\<lparr>content_hash := ''h0''\<rparr>], trace = [],
        loaderDoneReturn = directory_loaderDoneReturn ''u''\<rparr>", OF h] h t m n g c d
  show ?thesis
    by (simp add: row_a_def doc_a_def)
qed

text \<open>C7 as stated fails: in the forced reload of the sample directory by the
  incrementalUpdate variant, with an older hash in the row of \<^verbatim>\<open>/d/a.txt\<close>, the row with
  the new hash is written and \<^verbatim>\<open>deleteLoader\<close> was at no time called on the stored id
  \<^verbatim>\<open>old:a\<close>.\<close>

theorem delete_before_write_counterexample:
  "run_items (directoryTask_inc sample_env ''/d'' [file_a] True False)
      \<lparr>store = [row_a\<lparr>hash := ''h0''\<rparr>], trace = [],
       loaderDoneReturn = directory_loaderDoneReturn ''u''\<rparr> =
     (\<lparr>store = [\<lparr>filePath = ''/d/a.txt'', lastModified = 10, size_bytes = 50,
                  hash = ''h1'', embedjs_unique_id = ''new:/d/a.txt''\<rparr>],
       trace = [DeleteDirectoryMetadata ''/d'', AddFileLoader ''/d/a.txt'' True,
                InsertFileMetadata \<lparr>filePath = ''/d/a.txt'', lastModified = 10, size_bytes = 50,
                  hash = ''h1'', embedjs_unique_id = ''new:/d/a.txt''\<rparr>],
       loaderDoneReturn = \<lparr>entriesAdded = 1, uniqueId = ''DirectoryLoader_u'',
          uniqueIds = [''new:/d/a.txt''], loaderType = ''DirectoryLoader''\<rparr>\<rparr>,
      [Inr \<lparr>entriesAdded = 0, uniqueId = ''deleteMetaTask'', uniqueIds = [],
            loaderType = ''PreTask''\<rparr>,
       Inr \<lparr>entriesAdded = 1, uniqueId = ''new:/d/a.txt'', uniqueIds = [''new:/d/a.txt''],
            loaderType = ''LocalPathLoader''\<rparr>]) \<and>
   embedjs_unique_id (row_a\<lparr>hash := ''h0''\<rparr>) = ''old:a''"
  by (simp add: directoryTask_inc_def clear_metadata_task_def refresh_file_task_def
      deleteDirectoryMetadata_def insertFileMetadata_def pathPrefix_def
      endsWith_def directory_loaderDoneReturn_def step_defs sample_defs)

subsection \<open>Failures inside a unit of work\<close>

text \<open>
  C8 fails for the master task of an incremental directory update, whose body has no
  failure boundary: when the hash of a file of the directory cannot be computed, the
  promise of the item rejects, where the item of the same file in a full refresh resolves
  with \<^verbatim>\<open>ERROR_LOADER_RETURN\<close>.
\<close>

theorem incremental_master_rejects:
  "calculateFileHash sample_env (path file_c) = None \<and>
   incremental_master sample_env ''/d'' [file_c]
       \<lparr>store = [], trace = [], loaderDoneReturn = directory_loaderDoneReturn ''u''\<rparr> =
     (\<lparr>store = [], trace = [], loaderDoneReturn = directory_loaderDoneReturn ''u''\<rparr>,
      Inl HashError) \<and>
   refresh_file_task sample_env file_c
       \<lparr>store = [], trace = [], loaderDoneReturn = directory_loaderDoneReturn ''u''\<rparr> =
     (\<lparr>store = [], trace = [AddFileLoader ''/d/c.txt'' True],
       loaderDoneReturn = directory_loaderDoneReturn ''u''\<rparr>,
      Inr ERROR_LOADER_RETURN)"
  by (simp add: incremental_master_def incremental_file_def
      refresh_file_task_def metadata_map_def getDirectoryMetadata_def
      directory_loaderDoneReturn_def step_defs sample_defs Let_def)

text \<open>The master task is the only item of the task group of an incremental update.\<close>

lemma incremental_directory_items:
  "directoryTask_inc E directoryPath files False True =
     [(incremental_master E directoryPath files, sum_list (map file_size files))]"
  by (simp add: directoryTask_inc_def)

subsection \<open>The directory query\<close>

text \<open>
  C9 fails for a directory path with an underscore: the path is put into the \<^verbatim>\<open>LIKE\<close>
  pattern as it is, where \<^verbatim>\<open>_\<close> stands for any character, so the query for
  \<^verbatim>\<open>/data/my_docs\<close> returns the record of a file under \<^verbatim>\<open>/data/myXdocs\<close>, whose path
  does not begin with \<^verbatim>\<open>/data/my_docs/\<close>. The query for \<^verbatim>\<open>/a/b\<close> does not return a
  record under \<^verbatim>\<open>/a/bc\<close>.
\<close>

theorem directory_query_wildcard:
  "getDirectoryMetadata
     [\<lparr>filePath = ''/data/myXdocs/a.txt'', lastModified = 1, size_bytes = 2, hash = ''h'',
       embedjs_unique_id = ''id''\<rparr>] ''/data/my_docs'' =
     [\<lparr>filePath = ''/data/myXdocs/a.txt'', lastModified = 1, size_bytes = 2, hash = ''h'',
       embedjs_unique_id = ''id''\<rparr>] \<and>
   take (length ''/data/my_docs/'') ''/data/myXdocs/a.txt'' \<noteq> ''/data/my_docs/'' \<and>
   getMetadataByDirectoryPath ''/''
     [\<lparr>knowledge_base_id = ''kb'', file_path = ''/data/myXdocs/a.txt'', content_hash = ''h'',
       unique_id_embedjs = ''id'', loader_type = ''L'', last_modified_timestamp = 1\<rparr>]
     ''kb'' ''/data/my_docs'' =
     [\<lparr>knowledge_base_id = ''kb'', file_path = ''/data/myXdocs/a.txt'', content_hash = ''h'',
       unique_id_embedjs = ''id'', loader_type = ''L'', last_modified_timestamp = 1\<rparr>] \<and>
   getDirectoryMetadata
     [\<lparr>filePath = ''/a/bc/x.txt'', lastModified = 1, size_bytes = 2, hash = ''h'',
       embedjs_unique_id = ''id''\<rparr>] ''/a/b'' = []"
  by (simp add: getDirectoryMetadata_def getMetadataByDirectoryPath_def pathPrefix_def
      endsWith_def ascii_lower_def)

text \<open>What does hold of the query: every record whose path begins with the directory path
  and the separator is returned (\<open>records_under_directory_returned\<close> above), and the query
  for \<^verbatim>\<open>/a/b\<close> returns no record under \<^verbatim>\<open>/a/bc\<close>.\<close>

lemma sibling_directory_not_returned:
  "filePath r = ''/a/bc'' @ rest \<Longrightarrow> r \<notin> set (getDirectoryMetadata db ''/a/b'')"
  by (simp add: getDirectoryMetadata_def pathPrefix_def endsWith_def ascii_lower_def)

subsection \<open>What an unchanged file contributes to \<^verbatim>\<open>uniqueIds\<close>\<close>

lemma incremental_master_resolved:
  assumes "incremental_master E directoryPath files w = (w', Inr r)"
  shows "\<exists>w1 acc. incremental_files E (metadata_map (getDirectoryMetadata (store w) directoryPath))
                      files (0, []) w = (w1, Inr acc) \<and>
                   uniqueIds r = snd acc \<and> uniqueIds (loaderDoneReturn w') = snd acc \<and>
                   entriesAdded r = fst acc"
proof -
  let ?M = "metadata_map (getDirectoryMetadata (store w) directoryPath)"
  obtain w1 r1 where s1: "incremental_files E ?M files (0, []) w = (w1, r1)"
    by (cases "incremental_files E ?M files (0, []) w")
  show ?thesis
  proof (cases r1)
    case (Inl e)
    with s1 assms show ?thesis by (simp add: incremental_master_def Let_def andThen_def)
  next
    case (Inr acc)
    obtain w2 r2 where s2: "incremental_deleted E (map path files)
        (getDirectoryMetadata (store w) directoryPath) w1 = (w2, r2)"
      by (cases "incremental_deleted E (map path files) (getDirectoryMetadata (store w) directoryPath) w1")
    show ?thesis
    proof (cases r2)
      case (Inl e)
      with s1 s2 Inr assms show ?thesis by (simp add: incremental_master_def Let_def andThen_def)
    next
      case u: (Inr x)
      with s1 s2 Inr assms show ?thesis by (auto simp add: incremental_master_def Let_def andThen_def)
    qed
  qed
qed

text \<open>
  C10. In an incremental directory update, the pass over an unchanged file appends the
  \<^verbatim>\<open>filePath\<close> of its record, which is the path of the file, to the collected ids, not
  the recorded backend id; so when the master task resolves, the path of every unchanged
  file is an entry of the \<^verbatim>\<open>uniqueIds\<close> it returns and stores in the aggregate result.
\<close>

theorem unchanged_path_in_uniqueIds:
  assumes "incremental_master E directoryPath files w = (w', Inr r)"
    and "f \<in> set files"
    and "metadata_map (getDirectoryMetadata (store w) directoryPath) (path f) = Some m"
    and "calculateFileHash E (path f) = Some (hash m)"
    and "statSync_mtimeMs E (path f) = Some (lastModified m)"
  shows "incremental_file E (metadata_map (getDirectoryMetadata (store w) directoryPath)) f acc u =
           (u, Inr (fst acc, snd acc @ [filePath m])) \<and>
         filePath m = path f \<and>
         path f \<in> set (uniqueIds r) \<and>
         uniqueIds (loaderDoneReturn w') = uniqueIds r"
proof -
  let ?M = "metadata_map (getDirectoryMetadata (store w) directoryPath)"
  from incremental_master_resolved[OF assms(1)] obtain w1 acc1 where
    l: "incremental_files E ?M files (0, []) w = (w1, Inr acc1)"
    and ids: "uniqueIds r = snd acc1" "uniqueIds (loaderDoneReturn w') = snd acc1"
    by blast
  have p: "filePath m = path f" using metadata_map_Some[OF assms(3)] by simp
  have "filePath m \<in> set (snd acc1)"
    using incremental_files_unchanged_id[of E ?M files "(0, [])" w w1 acc1 f m, OF l assms(2,3,4,5)] .
  moreover have "incremental_file E ?M f acc u = (u, Inr (fst acc, snd acc @ [filePath m]))"
    using incremental_file_unchanged[of E f "hash m" "lastModified m" ?M m acc u, OF assms(4,5,3)]
    by simp
  ultimately show ?thesis using p ids by simp
qed

text \<open>A second synchronisation of the unchanged sample directory.\<close>

lemma second_sync:
  "incremental_master sample_env ''/d'' [file_a, file_b]
       \<lparr>store = [row_a, row_b], trace = [], loaderDoneReturn = directory_loaderDoneReturn ''u''\<rparr> =
     (\<lparr>store = [row_a, row_b], trace = [],
       loaderDoneReturn = \<lparr>entriesAdded = 0, uniqueId = ''DirectoryLoader_u'',
          uniqueIds = [''/d/a.txt'', ''/d/b.txt''], loaderType = ''DirectoryLoader''\<rparr>\<rparr>,
      Inr \<lparr>entriesAdded = 0, uniqueId = ''DirectoryLoader_u'',
         uniqueIds = [''/d/a.txt'', ''/d/b.txt''], loaderType = ''DirectoryIncrementalScanPart''\<rparr>)"
  by (simp add: incremental_master_def incremental_file_def metadata_map_def getDirectoryMetadata_def
     pathPrefix_def endsWith_def directory_loaderDoneReturn_def step_defs sample_defs Let_def)

text \<open>C10 at the second synchronisation of the sample directory.\<close>

theorem unchanged_path_in_uniqueIds_witness:
  "incremental_master sample_env ''/d'' [file_a, file_b]
       \<lparr>store = [row_a, row_b], trace = [], loaderDoneReturn = directory_loaderDoneReturn ''u''\<rparr> =
     (\<lparr>store = [row_a, row_b], trace = [],
       loaderDoneReturn = \<lparr>entriesAdded = 0, uniqueId = ''DirectoryLoader_u'',
          uniqueIds = [''/d/a.txt'', ''/d/b.txt''], loaderType = ''DirectoryLoader''\<rparr>\<rparr>,
      Inr \<lparr>entriesAdded = 0, uniqueId = ''DirectoryLoader_u'',
         uniqueIds = [''/d/a.txt'', ''/d/b.txt''], loaderType = ''DirectoryIncrementalScanPart''\<rparr>) \<and>
   file_a \<in> set [file_a, file_b] \<and>
   metadata_map (getDirectoryMetadata [row_a, row_b] ''/d'') (path file_a) = Some row_a \<and>
   calculateFileHash sample_env (path file_a) = Some (hash row_a) \<and>
   statSync_mtimeMs sample_env (path file_a) = Some (lastModified row_a) \<and>
   filePath row_a = path file_a \<and>
   embedjs_unique_id row_a \<noteq> path file_a \<and>
   path file_a \<in> set [''/d/a.txt'', ''/d/b.txt'']"
proof -
  have m: "metadata_map (getDirectoryMetadata
      (store \<lparr>store = [row_a, row_b], trace = [], loaderDoneReturn = directory_loaderDoneReturn ''u''\<rparr>)
      ''/d'') (path file_a) = Some row_a"
    by (simp add: metadata_map_def getDirectoryMetadata_def pathPrefix_def endsWith_def sample_defs)
  have h: "calculateFileHash sample_env (path file_a) = Some (hash row_a)"
    and t: "statSync_mtimeMs sample_env (path file_a) = Some (lastModified row_a)"
    and i: "file_a \<in> set [file_a, file_b]"
    and n: "embedjs_unique_id row_a \<noteq> path file_a"
    by (simp_all add: sample_defs)
  from unchanged_path_in_uniqueIds[OF second_sync i m h t, of "(0, [])"
      "\<lparr>store = [row_a, row_b], trace = [], loaderDoneReturn = directory_loaderDoneReturn ''u''\<rparr>"]
    second_sync i m h t n
  show ?thesis by simp
qed

end
